theory Spec2Isabelle
  imports Main
begin

section \<open>Data model\<close>

text \<open>
  The engine handles untyped JavaScript values (\<open>any\<close>): run input, node output, the
  entries of a node's \<open>config\<close>, variable values. They are modelled by one datatype of
  JSON-like values, with \<open>undefined\<close> as a value of its own, since destructuring a
  missing property yields it. Numbers are integers here; no executor computes with them.
\<close>

datatype json =
    JUndefined
  | JNull
  | JBool bool
  | JNum int
  | JStr string
  | JArr "json list"
  | JObj "(string \<times> json) list"

text \<open>
  Everything the service throws: an \<open>ApiError\<close> with status code, code and message,
  as the static constructors of the backend's \<open>ApiError\<close> class build it; a plain
  \<open>Error\<close> with its message; and the runtime's \<open>TypeError\<close>, raised when a
  property that is not a function is called. All three are instances of \<open>Error\<close>,
  so \<open>error.message\<close> is what the handlers record.
\<close>

datatype exn =
    ApiError nat string string
  | Error string
  | TypeError string

fun message_of :: "exn \<Rightarrow> string" where
  "message_of (ApiError statusCode code message) = message"
| "message_of (Error message) = message"
| "message_of (TypeError message) = message"

text \<open>
  Template literals convert the interpolated value with \<open>ToString\<close>: the decimal
  digits of a number, the elements of an array joined by commas (nothing for
  \<open>null\<close> and \<open>undefined\<close> elements), \<open>[object Object]\<close> for an object.
\<close>

definition digit :: "nat \<Rightarrow> char" where
  "digit d = ''0123456789'' ! d"

fun decimal :: "nat \<Rightarrow> string" where
  "decimal n = (if 10 \<le> n then decimal (n div 10) @ [digit (n mod 10)] else [digit n])"

definition number_toString :: "int \<Rightarrow> string" where
  "number_toString i = (if 0 \<le> i then decimal (nat i) else CHR ''-'' # decimal (nat (- i)))"

fun join :: "string list \<Rightarrow> string" where
  "join [] = []"
| "join [x] = x"
| "join (x # y # ys) = x @ '','' @ join (y # ys)"

fun toString :: "json \<Rightarrow> string" where
  "toString JUndefined = ''undefined''"
| "toString JNull = ''null''"
| "toString (JBool b) = (if b then ''true'' else ''false'')"
| "toString (JNum n) = number_toString n"
| "toString (JStr s) = s"
| "toString (JArr xs) =
     join (map (\<lambda>x. if x = JNull \<or> x = JUndefined then [] else toString x) xs)"
| "toString (JObj kvs) = ''[object Object]''"

definition notFound :: "string \<Rightarrow> exn" where
  "notFound message = ApiError 404 ''NOT_FOUND'' message"

definition badRequest :: "string \<Rightarrow> exn" where
  "badRequest message = ApiError 400 ''BAD_REQUEST'' message"


text \<open>
  A node: \<open>config\<close> is optional in the schema, so it is an optional map; the executors
  read it through \<open>node.config || {}\<close> and destructure, which \<open>cfg\<close> renders.
\<close>

record FlowNode =
  node_id :: string
  node_type :: string
  node_name :: string
  node_config :: "(string \<rightharpoonup> json) option"

record FlowConnection =
  conn_id :: string
  sourceNodeId :: string
  targetNodeId :: string
  sourceHandle :: "string option"

record FlowVariable =
  var_name :: json
  defaultValue :: json

text \<open>
  \<open>executeFlowAsync\<close> calls \<open>flow.variables.forEach\<close>, which exists on an array only;
  the flow type declares a record (a plain object), whose \<open>forEach\<close> is undefined.
  Both shapes are kept.
\<close>

datatype FlowVariables =
    VarArray "FlowVariable list"
  | VarObject "(string \<times> json) list"

record Flow =
  flow_id :: string
  flow_name :: string
  flow_status :: string
  nodes :: "FlowNode list"
  connections :: "FlowConnection list"
  variables :: FlowVariables

text \<open>
  The run's context. \<open>variables\<close> is a JavaScript \<open>Map\<close>; its keys come from node
  configs, so they are values too.
\<close>

record ExecutionContext =
  executionId :: string
  flowId :: string
  ctx_variables :: "json \<rightharpoonup> json"
  inputData :: json
  outputData :: json
  currentNodeId :: string
  executionPath :: "string list"
  startTime :: int

record NodeExecutionResult =
  res_nodeId :: string
  success :: bool
  res_status :: string
  res_inputData :: json
  res_outputData :: json
  executionTime :: int
  error :: "string option"

definition cfg :: "FlowNode \<Rightarrow> string \<Rightarrow> json" where
  "cfg node key =
     (case node_config node of
        None \<Rightarrow> JUndefined
      | Some c \<Rightarrow> (case c key of None \<Rightarrow> JUndefined | Some v \<Rightarrow> v))"

text \<open>JavaScript truthiness, for \<open>if (!condition)\<close>.\<close>

fun truthy :: "json \<Rightarrow> bool" where
  "truthy JUndefined = False"
| "truthy JNull = False"
| "truthy (JBool b) = b"
| "truthy (JNum n) = (n \<noteq> 0)"
| "truthy (JStr s) = (s \<noteq> [])"
| "truthy (JArr xs) = True"
| "truthy (JObj kvs) = True"

section \<open>Node executors\<close>

text \<open>
  Each executor returns the thrown error on the left or its return value on the right,
  together with the context as it left it.
\<close>

definition executeConditionNode ::
  "FlowNode \<Rightarrow> json \<Rightarrow> ExecutionContext \<Rightarrow> (exn + json) \<times> ExecutionContext" where
  "executeConditionNode node input context =
     (let condition = cfg node ''condition'' in
      if \<not> truthy condition then (Inl (Error ''Condition node missing condition configuration''), context)
      else (Inr input, context))"

definition executeHttpRequest :: "json \<Rightarrow> json \<Rightarrow> json" where
  "executeHttpRequest config input = input"

definition executeDataTransform :: "json \<Rightarrow> json \<Rightarrow> json" where
  "executeDataTransform config input = input"

definition executeActionNode ::
  "FlowNode \<Rightarrow> json \<Rightarrow> ExecutionContext \<Rightarrow> (exn + json) \<times> ExecutionContext" where
  "executeActionNode node input context =
     (let actionType = cfg node ''actionType''; config = cfg node ''config'' in
      if actionType = JStr ''http_request'' then (Inr (executeHttpRequest config input), context)
      else if actionType = JStr ''data_transform''
        then (Inr (executeDataTransform config input), context)
      else (Inl (Error (''Unsupported action type: '' @ toString actionType)), context))"

text \<open>
  The delay node awaits a timer of \<open>duration\<close> milliseconds (1000 when the config
  has none) and returns its input; the wait changes no state of the run.
\<close>

definition executeDelayNode ::
  "FlowNode \<Rightarrow> json \<Rightarrow> ExecutionContext \<Rightarrow> (exn + json) \<times> ExecutionContext" where
  "executeDelayNode node input context = (Inr input, context)"

definition executeVariableNode ::
  "FlowNode \<Rightarrow> json \<Rightarrow> ExecutionContext \<Rightarrow> (exn + json) \<times> ExecutionContext" where
  "executeVariableNode node input context =
     (let operation = cfg node ''operation'';
          variableName = cfg node ''variableName'';
          val = cfg node ''value'' in
      if operation = JStr ''set''
        then (Inr input,
              context\<lparr>ctx_variables := (ctx_variables context)(variableName \<mapsto> val)\<rparr>)
      else if operation = JStr ''get''
        then (Inr (case ctx_variables context variableName of
                     None \<Rightarrow> JUndefined | Some v \<Rightarrow> v), context)
      else (Inl (Error (''Unsupported variable operation: '' @ toString operation)), context))"

text \<open>
  The body of the \<open>try\<close> in \<open>executeNode\<close>: the switch over the node type.
\<close>

definition executeNode_switch ::
  "FlowNode \<Rightarrow> ExecutionContext \<Rightarrow> json \<Rightarrow> (exn + json) \<times> ExecutionContext" where
  "executeNode_switch node context input =
     (if node_type node = ''start'' then (Inr (inputData context), context)
      else if node_type node = ''end'' then (Inr input, context\<lparr>outputData := input\<rparr>)
      else if node_type node = ''condition'' then executeConditionNode node input context
      else if node_type node = ''action'' then executeActionNode node input context
      else if node_type node = ''delay'' then executeDelayNode node input context
      else if node_type node = ''variable'' then executeVariableNode node input context
      else (Inl (Error (''Unsupported node type: '' @ node_type node)), context))"

text \<open>
  \<open>executeNode\<close> with its two clock readings: \<open>t0\<close> is \<open>Date.now()\<close> on entry,
  \<open>t1\<close> the reading when the result is built. The \<open>catch\<close> turns every thrown
  error into a result.
\<close>

definition executeNode ::
  "int \<Rightarrow> int \<Rightarrow> FlowNode \<Rightarrow> ExecutionContext \<Rightarrow> json
     \<Rightarrow> NodeExecutionResult \<times> ExecutionContext" where
  "executeNode t0 t1 node context input =
     (case executeNode_switch node context input of
        (Inr out, context') \<Rightarrow>
          (\<lparr>res_nodeId = node_id node, success = True, res_status = ''completed'',
            res_inputData = input, res_outputData = out, executionTime = t1 - t0,
            error = None\<rparr>, context')
      | (Inl e, context') \<Rightarrow>
          (\<lparr>res_nodeId = node_id node, success = False, res_status = ''failed'',
            res_inputData = input, res_outputData = JNull, executionTime = t1 - t0,
            error = Some (message_of e)\<rparr>, context'))"

section \<open>Choosing the next node\<close>

definition getNextNode :: "Flow \<Rightarrow> FlowNode \<Rightarrow> json \<Rightarrow> FlowNode option" where
  "getNextNode flow currentNode data =
     (let conns = filter (\<lambda>conn. sourceNodeId conn = node_id currentNode) (connections flow) in
      if length conns = 0 then None
      else if length conns = 1
        then find (\<lambda>node. node_id node = targetNodeId (conns ! 0)) (nodes flow)
      else find (\<lambda>node. node_id node = targetNodeId (conns ! 0)) (nodes flow))"

section \<open>The service: stored executions, logs, clock\<close>

text \<open>
  The rows of table \<open>executions\<close> as the service writes and reads them. Times are
  clock readings (the source stores their ISO rendering).
\<close>

record ExecutionRow =
  row_flow_id :: string
  row_status :: string
  input_data :: json
  output_data :: "json option"
  error_message :: "string option"
  started_at :: "int option"
  completed_at :: "int option"
  duration :: "int option"

record ExecutionLog =
  log_executionId :: string
  log_nodeId :: string
  level :: string
  message :: string
  log_data :: json
  timestamp :: int

text \<open>
  The rows of table \<open>flows\<close>, with the columns \<open>mapRowToFlow\<close> reads that the
  engine uses (\<open>nodes\<close>, \<open>connections\<close> and \<open>variables\<close> already parsed) and
  the publish flag. The table has no column \<open>status\<close>.
\<close>

record FlowRow =
  row_id :: string
  row_name :: string
  row_nodes :: "FlowNode list"
  row_connections :: "FlowConnection list"
  row_variables :: FlowVariables
  is_published :: bool

text \<open>
  The state the service works on: the three tables, the registry
  \<open>activeExecutions\<close> (its values, the contexts, are never read, so only the keys
  are kept), and the clock: \<open>clock\<close> gives the successive readings of
  \<open>Date.now()\<close>, \<open>ticks\<close> counts the readings taken. The reads, the updates of
  an execution and the inserts into the log are taken to succeed; the insert of a new
  execution is checked against the declaration of its table, below.
\<close>

record Service =
  flows :: "string \<rightharpoonup> FlowRow"
  executions :: "string \<rightharpoonup> ExecutionRow"
  execution_logs :: "ExecutionLog list"
  activeExecutions :: "string set"
  clock :: "nat \<Rightarrow> int"
  ticks :: nat

definition now :: "Service \<Rightarrow> int" where
  "now s = clock s (ticks s)"

definition tick :: "Service \<Rightarrow> Service" where
  "tick s = s\<lparr>ticks := Suc (ticks s)\<rparr>"

definition updateExecutionStatus :: "string \<Rightarrow> string \<Rightarrow> Service \<Rightarrow> Service" where
  "updateExecutionStatus eid status s =
     (case executions s eid of
        None \<Rightarrow> s
      | Some row \<Rightarrow> s\<lparr>executions := (executions s)(eid \<mapsto> row\<lparr>row_status := status\<rparr>)\<rparr>)"

definition addExecutionLog ::
  "string \<Rightarrow> string \<Rightarrow> string \<Rightarrow> string \<Rightarrow> json \<Rightarrow> Service \<Rightarrow> Service" where
  "addExecutionLog eid nodeId lvl msg data s =
     tick (s\<lparr>execution_logs := execution_logs s @
        [\<lparr>log_executionId = eid, log_nodeId = nodeId, level = lvl, message = msg,
          log_data = (if truthy data then data else JObj []), timestamp = now s\<rparr>]\<rparr>)"

definition getExecutionById :: "string \<Rightarrow> Service \<Rightarrow> exn + ExecutionRow" where
  "getExecutionById eid s =
     (case executions s eid of
        None \<Rightarrow> Inl (notFound ''Execution not found'')
      | Some row \<Rightarrow> Inr row)"







section \<open>The traversal loop\<close>

text \<open>
  One pass through the body of the \<open>while\<close> in \<open>executeNodes\<close>, up to the log
  entry after the executor, in two halves. \<open>executeNodes_enter\<close> records the visit,
  announces the node and takes the first clock reading of \<open>executeNode\<close>; there the
  run awaits the executor (the timer, for a delay node). \<open>executeNodes_leave\<close> is the
  rest: the executor's effect and result with the second clock reading, of which only
  \<open>outputData\<close> is read, and the log entry that follows.
  With the queries succeeding, nothing in the \<open>try\<close> throws (\<open>executeNode\<close>
  catches everything itself), so the \<open>catch\<close> of the loop has no branch here.
\<close>

definition executeNodes_enter ::
  "FlowNode \<Rightarrow> ExecutionContext \<Rightarrow> Service \<Rightarrow> ExecutionContext \<times> int \<times> Service" where
  "executeNodes_enter currentNode context s =
     (let context1 = context\<lparr>currentNodeId := node_id currentNode,
                              executionPath := executionPath context @ [node_id currentNode]\<rparr>;
          s1 = addExecutionLog (executionId context1) (node_id currentNode) ''info''
                 (''Executing node: '' @ node_name currentNode)
                 (JObj [(''nodeType'', JStr (node_type currentNode))]) s
      in (context1, now s1, tick s1))"

definition executeNodes_leave ::
  "FlowNode \<Rightarrow> json \<Rightarrow> ExecutionContext \<Rightarrow> int \<Rightarrow> Service
     \<Rightarrow> json \<times> ExecutionContext \<times> Service" where
  "executeNodes_leave currentNode result context1 t0 s =
     (let (nodeResult, context2) = executeNode t0 (now s) currentNode context1 result;
          result' = res_outputData nodeResult;
          s2 = addExecutionLog (executionId context2) (node_id currentNode) ''info''
                 ''Node executed successfully'' (JObj [(''outputData'', result')]) (tick s)
      in (result', context2, s2))"

definition executeNodes_body ::
  "FlowNode \<Rightarrow> json \<Rightarrow> ExecutionContext \<Rightarrow> Service \<Rightarrow> json \<times> ExecutionContext \<times> Service" where
  "executeNodes_body currentNode result context s =
     (case executeNodes_enter currentNode context s of
        (context1, t0, s1) \<Rightarrow> executeNodes_leave currentNode result context1 t0 s1)"

partial_function (option) executeNodes_loop ::
  "Flow \<Rightarrow> FlowNode option \<Rightarrow> json \<Rightarrow> ExecutionContext \<Rightarrow> Service
     \<Rightarrow> (json \<times> ExecutionContext \<times> Service) option" where
  "executeNodes_loop flow currentNode result context s =
     (case currentNode of
        None \<Rightarrow> Some (result, context, s)
      | Some node \<Rightarrow>
          (case executeNodes_body node result context s of
             (result', context', s') \<Rightarrow>
               if node_type node = ''end'' then Some (result', context', s')
               else executeNodes_loop flow (getNextNode flow node result') result' context' s'))"

declare executeNodes_loop.simps [code]

definition executeNodes ::
  "Flow \<Rightarrow> ExecutionContext \<Rightarrow> Service
     \<Rightarrow> ((exn + json) \<times> ExecutionContext \<times> Service) option" where
  "executeNodes flow context s =
     (case find (\<lambda>node. node_type node = ''start'') (nodes flow) of
        None \<Rightarrow> Some (Inl (Error ''No start node found in flow''), context, s)
      | Some startNode \<Rightarrow>
          (case executeNodes_loop flow (Some startNode) (inputData context) context s of
             None \<Rightarrow> None
           | Some (result, context', s') \<Rightarrow> Some (Inr result, context', s')))"

section \<open>Running, starting and cancelling an execution\<close>

text \<open>
  \<open>executeFlowAsync\<close> in three parts, so that what another request does while the
  run is suspended at an \<open>await\<close> can be put between them. The first part builds the
  context, seeds the variables (outside the \<open>try\<close>: on a \<open>variables\<close> that is
  not an array the call of \<open>forEach\<close> rejects the promise and nothing else happens),
  marks the execution running, registers it and writes the first log entry.
\<close>

definition executeFlowAsync_begin ::
  "string \<Rightarrow> Flow \<Rightarrow> json \<Rightarrow> Service \<Rightarrow> (exn + ExecutionContext) \<times> Service" where
  "executeFlowAsync_begin eid flow input s =
     (let context = \<lparr>executionId = eid, flowId = flow_id flow, ctx_variables = Map.empty,
                      inputData = input, outputData = JObj [], currentNodeId = [],
                      executionPath = [], startTime = now s\<rparr>;
          s0 = tick s
      in case variables flow of
           VarObject kvs \<Rightarrow> (Inl (TypeError ''flow.variables.forEach is not a function''), s0)
         | VarArray vs \<Rightarrow>
             (let context' = context\<lparr>ctx_variables :=
                    fold (\<lambda>variable m. m(var_name variable \<mapsto> defaultValue variable)) vs
                      (ctx_variables context)\<rparr>;
                  s1 = updateExecutionStatus eid ''running'' s0;
                  s2 = s1\<lparr>activeExecutions := insert eid (activeExecutions s1)\<rparr>;
                  s3 = addExecutionLog eid ''system'' ''info'' ''Flow execution started''
                         (JObj [(''flowId'', JStr (flow_id flow)),
                                (''flowName'', JStr (flow_name flow)),
                                (''inputData'', input)]) s2
              in (Inr context', s3)))"

text \<open>
  The last part: what follows \<open>executeNodes\<close>. A returned result is written with
  status \<open>completed\<close>, a thrown error with status \<open>failed\<close>; both updates name the
  row by its id only. The \<open>finally\<close> removes the execution from the registry.
\<close>

definition executeFlowAsync_end ::
  "string \<Rightarrow> ExecutionContext \<Rightarrow> exn + json \<Rightarrow> Service \<Rightarrow> Service" where
  "executeFlowAsync_end eid context outcome s =
     (let completedAt = now s;
          dur = now (tick s) - startTime context;
          s1 = tick (tick s);
          s2 = (case outcome of
                  Inr result \<Rightarrow>
                    addExecutionLog eid ''system'' ''info'' ''Flow execution completed''
                      (JObj [(''duration'', JNum dur), (''outputData'', result)])
                      (case executions s1 eid of
                         None \<Rightarrow> s1
                       | Some row \<Rightarrow> s1\<lparr>executions := (executions s1)(eid \<mapsto>
                           row\<lparr>row_status := ''completed'', output_data := Some result,
                               completed_at := Some completedAt, duration := Some dur\<rparr>)\<rparr>)
                | Inl err \<Rightarrow>
                    addExecutionLog eid ''system'' ''error'' ''Flow execution failed''
                      (JObj [(''error'', JStr (message_of err)), (''duration'', JNum dur)])
                      (case executions s1 eid of
                         None \<Rightarrow> s1
                       | Some row \<Rightarrow> s1\<lparr>executions := (executions s1)(eid \<mapsto>
                           row\<lparr>row_status := ''failed'',
                               error_message := Some (message_of err),
                               completed_at := Some completedAt, duration := Some dur\<rparr>)\<rparr>))
      in s2\<lparr>activeExecutions := activeExecutions s2 - {eid}\<rparr>)"

text \<open>
  The whole run with no other request in between. \<open>None\<close> is a traversal that never
  returns; \<open>Inl\<close> is the rejected promise of the first part.
\<close>

definition executeFlowAsync ::
  "string \<Rightarrow> Flow \<Rightarrow> json \<Rightarrow> Service \<Rightarrow> ((exn + unit) \<times> Service) option" where
  "executeFlowAsync eid flow input s =
     (case executeFlowAsync_begin eid flow input s of
        (Inl err, s') \<Rightarrow> Some (Inl err, s')
      | (Inr context, s') \<Rightarrow>
          (case executeNodes flow context s' of
             None \<Rightarrow> None
           | Some (outcome, context', s'') \<Rightarrow>
               Some (Inr (), executeFlowAsync_end eid context' outcome s'')))"




definition cancelExecution :: "string \<Rightarrow> Service \<Rightarrow> (exn + ExecutionRow) \<times> Service" where
  "cancelExecution eid s =
     (case getExecutionById eid s of
        Inl err \<Rightarrow> (Inl err, s)
      | Inr execution \<Rightarrow>
          if row_status execution \<noteq> ''pending'' \<and> row_status execution \<noteq> ''running''
            then (Inl (badRequest ''Execution cannot be cancelled''), s)
          else
            (let s1 = updateExecutionStatus eid ''cancelled'' s;
                 s2 = s1\<lparr>activeExecutions := activeExecutions s1 - {eid}\<rparr>;
                 s3 = addExecutionLog eid ''system'' ''info'' ''Execution cancelled by user''
                        JUndefined s2
             in (getExecutionById eid s3, s3)))"

section \<open>Validation of the flow structure\<close>

text \<open>
  The adjacency map of \<open>hasCircularDependency\<close> is a JavaScript \<open>Map\<close>, iterated
  in insertion order: an association list in which setting an existing key keeps its
  place.
\<close>

fun graph_set :: "string \<Rightarrow> string list \<Rightarrow> (string \<times> string list) list
    \<Rightarrow> (string \<times> string list) list" where
  "graph_set k v [] = [(k, v)]"
| "graph_set k v ((k', v') # g) = (if k = k' then (k, v) # g else (k', v') # graph_set k v g)"

definition graph_get :: "(string \<times> string list) list \<Rightarrow> string \<Rightarrow> string list" where
  "graph_get g k = (case map_of g k of None \<Rightarrow> [] | Some targets \<Rightarrow> targets)"

definition buildGraph ::
  "FlowNode list \<Rightarrow> FlowConnection list \<Rightarrow> (string \<times> string list) list" where
  "buildGraph ns conns =
     fold (\<lambda>connection g.
             graph_set (sourceNodeId connection)
               (graph_get g (sourceNodeId connection) @ [targetNodeId connection]) g)
          conns
          (fold (\<lambda>node g. graph_set (node_id node) [] g) ns [])"

text \<open>
  The depth-first search, with the two sets \<open>visited\<close> and \<open>recursionStack\<close>
  passed along. \<open>dfs_neighbors\<close> is the \<open>for\<close> over the neighbours, which returns
  at the first cycle found. The recursion is bounded by a budget for its depth; a
  search that exhausts it is \<open>None\<close>.
\<close>

fun dfs :: "nat \<Rightarrow> (string \<times> string list) list \<Rightarrow> string \<Rightarrow> string set \<times> string set
    \<Rightarrow> (bool \<times> string set \<times> string set) option"
and dfs_neighbors :: "nat \<Rightarrow> (string \<times> string list) list \<Rightarrow> string list
    \<Rightarrow> string set \<times> string set \<Rightarrow> (bool \<times> string set \<times> string set) option" where
  "dfs fuel g nodeId (visited, recursionStack) =
     (if nodeId \<in> recursionStack then Some (True, visited, recursionStack)
      else if nodeId \<in> visited then Some (False, visited, recursionStack)
      else case fuel of
             0 \<Rightarrow> None
           | Suc fuel' \<Rightarrow>
               (case dfs_neighbors fuel' g (graph_get g nodeId)
                       (insert nodeId visited, insert nodeId recursionStack) of
                  None \<Rightarrow> None
                | Some (True, visited', recursionStack') \<Rightarrow>
                    Some (True, visited', recursionStack')
                | Some (False, visited', recursionStack') \<Rightarrow>
                    Some (False, visited', recursionStack' - {nodeId})))"
| "dfs_neighbors fuel g [] st = Some (False, st)"
| "dfs_neighbors fuel g (neighbor # rest) st =
     (case dfs fuel g neighbor st of
        None \<Rightarrow> None
      | Some (True, st') \<Rightarrow> Some (True, st')
      | Some (False, st') \<Rightarrow> dfs_neighbors fuel g rest st')"

text \<open>The \<open>for\<close> over the keys of the map.\<close>

fun dfs_keys :: "nat \<Rightarrow> (string \<times> string list) list \<Rightarrow> string list
    \<Rightarrow> string set \<times> string set \<Rightarrow> bool option" where
  "dfs_keys fuel g [] st = Some False"
| "dfs_keys fuel g (nodeId # rest) (visited, recursionStack) =
     (if nodeId \<notin> visited
      then (case dfs fuel g nodeId (visited, recursionStack) of
              None \<Rightarrow> None
            | Some (True, st') \<Rightarrow> Some True
            | Some (False, st') \<Rightarrow> dfs_keys fuel g rest st')
      else dfs_keys fuel g rest (visited, recursionStack))"

text \<open>
  The budget is the number of identifiers the map mentions; no path of the search is
  longer.
\<close>

definition hasCircularDependency :: "FlowNode list \<Rightarrow> FlowConnection list \<Rightarrow> bool option" where
  "hasCircularDependency ns conns =
     (let g = buildGraph ns conns
      in dfs_keys (length (map fst g @ concat (map snd g))) g (map fst g) ({}, {}))"

record ValidationResult =
  isValid :: bool
  errors :: "string list"

definition connection_errors :: "FlowNode list \<Rightarrow> FlowConnection \<Rightarrow> string list" where
  "connection_errors ns connection =
     (let sourceExists = list_ex (\<lambda>node. node_id node = sourceNodeId connection) ns;
          targetExists = list_ex (\<lambda>node. node_id node = targetNodeId connection) ns
      in (if \<not> sourceExists
          then [''Connection source node '' @ sourceNodeId connection @ '' does not exist'']
          else []) @
         (if \<not> targetExists
          then [''Connection target node '' @ targetNodeId connection @ '' does not exist'']
          else []))"

definition validateFlowStructure ::
  "FlowNode list \<Rightarrow> FlowConnection list \<Rightarrow> ValidationResult option" where
  "validateFlowStructure ns conns =
     (let startNodes = filter (\<lambda>node. node_type node = ''start'') ns;
          errors1 = (if length startNodes = 0 then [''Flow must have at least one start node'']
                     else if length startNodes > 1 then [''Flow can only have one start node'']
                     else []);
          endNodes = filter (\<lambda>node. node_type node = ''end'') ns;
          errors2 = errors1 @
                    (if length endNodes = 0 then [''Flow must have at least one end node'']
                     else []);
          nodeIds = map node_id ns;
          errors3 = errors2 @
                    (if length nodeIds \<noteq> card (set nodeIds) then [''Node IDs must be unique'']
                     else []);
          errors4 = errors3 @ concat (map (connection_errors ns) conns)
      in case hasCircularDependency ns conns of
           None \<Rightarrow> None
         | Some circular \<Rightarrow>
             (let errors5 = errors4 @
                    (if circular then [''Flow contains circular dependencies''] else [])
              in Some \<lparr>isValid = (length errors5 = 0), errors = errors5\<rparr>))"

section \<open>Notions used in the statements\<close>

text \<open>
  \<open>stops_within k flow node\<close>: following, from \<open>node\<close>, the node that
  \<open>getNextNode\<close> chooses, an \<open>end\<close> node or a node without a next node is
  reached in at most \<open>k\<close> steps.
\<close>

fun stops_within :: "nat \<Rightarrow> Flow \<Rightarrow> FlowNode \<Rightarrow> bool" where
  "stops_within 0 flow node =
     (node_type node = ''end'' \<or> getNextNode flow node JNull = None)"
| "stops_within (Suc k) flow node =
     (node_type node = ''end'' \<or>
      (case getNextNode flow node JNull of
         None \<Rightarrow> True
       | Some next \<Rightarrow> stops_within k flow next))"

text \<open>All identifiers an adjacency map mentions, as keys or as targets.\<close>

definition graph_ids :: "(string \<times> string list) list \<Rightarrow> string set" where
  "graph_ids g = set (map fst g @ concat (map snd g))"

text \<open>
  The branch rule as the specification words it, for comparison with \<open>getNextNode\<close>
  (this definition is not taken from the code): of the outgoing connections of a
  condition node, those whose \<open>sourceHandle\<close> equals the chosen branch are kept; if
  there is none, the connection matching \<open>defaultPath\<close> is taken.
\<close>

definition spec_conditionNext :: "Flow \<Rightarrow> FlowNode \<Rightarrow> string \<Rightarrow> FlowNode option" where
  "spec_conditionNext flow node branch =
     (let outgoing = filter (\<lambda>conn. sourceNodeId conn = node_id node) (connections flow);
          matching = filter (\<lambda>conn. sourceHandle conn = Some branch) outgoing;
          fallback = filter (\<lambda>conn. map_option JStr (sourceHandle conn) =
                                      Some (cfg node ''defaultPath'')) outgoing
      in case matching @ fallback of
           [] \<Rightarrow> None
         | conn # rest \<Rightarrow> find (\<lambda>n. node_id n = targetNodeId conn) (nodes flow))"

section \<open>Example flows and states\<close>

definition mk_node :: "string \<Rightarrow> string \<Rightarrow> (string \<rightharpoonup> json) option \<Rightarrow> FlowNode" where
  "mk_node i t c = \<lparr>node_id = i, node_type = t, node_name = i, node_config = c\<rparr>"

definition mk_conn :: "string \<Rightarrow> string \<Rightarrow> string \<Rightarrow> string option \<Rightarrow> FlowConnection" where
  "mk_conn i src tgt h = \<lparr>conn_id = i, sourceNodeId = src, targetNodeId = tgt, sourceHandle = h\<rparr>"

definition mk_flow :: "FlowNode list \<Rightarrow> FlowConnection list \<Rightarrow> Flow" where
  "mk_flow ns conns = \<lparr>flow_id = ''f1'', flow_name = ''example'', flow_status = ''published'',
                        nodes = ns, connections = conns, variables = VarArray []\<rparr>"

text \<open>
  The row of a published flow, and a service that stores one such flow and one
  execution \<open>x1\<close> of it with the given status; the clock shows 0, 1, 2, ...
\<close>

definition flow_row :: "Flow \<Rightarrow> FlowRow" where
  "flow_row flow =
     \<lparr>row_id = flow_id flow, row_name = flow_name flow, row_nodes = nodes flow,
      row_connections = connections flow, row_variables = variables flow,
      is_published = True\<rparr>"

definition mk_service :: "Flow \<Rightarrow> string \<Rightarrow> Service" where
  "mk_service flow status =
     \<lparr>flows = [flow_id flow \<mapsto> flow_row flow],
      executions = [''x1'' \<mapsto> \<lparr>row_flow_id = flow_id flow, row_status = status,
                      input_data = JObj [], output_data = None, error_message = None,
                      started_at = Some 0, completed_at = None, duration = None\<rparr>],
      execution_logs = [], activeExecutions = {}, clock = int, ticks = 1\<rparr>"

definition example_context :: ExecutionContext where
  "example_context = \<lparr>executionId = ''x1'', flowId = ''f1'',
      ctx_variables = [JStr ''counter'' \<mapsto> JNum 1], inputData = JObj [], outputData = JObj [],
      currentNodeId = [], executionPath = [], startTime = 0\<rparr>"

text \<open>start, a variable node asked to increment, end.\<close>

definition increment_node :: FlowNode where
  "increment_node = mk_node ''v'' ''variable''
     (Some [''operation'' \<mapsto> JStr ''increment'', ''variableName'' \<mapsto> JStr ''counter''])"

definition increment_flow :: Flow where
  "increment_flow = mk_flow
     [mk_node ''s'' ''start'' None, increment_node, mk_node ''e'' ''end'' None]
     [mk_conn ''c1'' ''s'' ''v'' None, mk_conn ''c2'' ''v'' ''e'' None]"

text \<open>start, an action whose first connection leads back to itself, end.\<close>

definition http_node :: FlowNode where
  "http_node = mk_node ''a'' ''action'' (Some [''actionType'' \<mapsto> JStr ''http_request''])"

definition cyclic_flow :: Flow where
  "cyclic_flow = mk_flow
     [mk_node ''s'' ''start'' None, http_node, mk_node ''e'' ''end'' None]
     [mk_conn ''c1'' ''s'' ''a'' None, mk_conn ''c2'' ''a'' ''a'' None,
      mk_conn ''c3'' ''a'' ''e'' None]"

text \<open>start, an action without outgoing connection, and an end nothing leads to.\<close>

definition dead_end_flow :: Flow where
  "dead_end_flow = mk_flow
     [mk_node ''s'' ''start'' None, http_node, mk_node ''e'' ''end'' None]
     [mk_conn ''c1'' ''s'' ''a'' None]"

text \<open>
  A condition node with three outgoing connections: one without handle, declared first,
  then the \<open>true\<close> and the \<open>false\<close> branch.
\<close>

definition condition_node :: FlowNode where
  "condition_node = mk_node ''c'' ''condition''
     (Some [''condition'' \<mapsto> JObj [(''field'', JStr ''x''), (''operator'', JStr ''equals''),
                                    (''value'', JNum 5)],
            ''defaultPath'' \<mapsto> JStr ''false''])"

definition branch_flow :: Flow where
  "branch_flow = mk_flow
     [mk_node ''s'' ''start'' None, condition_node, mk_node ''other'' ''end'' None,
      mk_node ''yes'' ''end'' None, mk_node ''no'' ''end'' None]
     [mk_conn ''c1'' ''s'' ''c'' None, mk_conn ''c2'' ''c'' ''other'' None,
      mk_conn ''c3'' ''c'' ''yes'' (Some ''true''), mk_conn ''c4'' ''c'' ''no'' (Some ''false'')]"

text \<open>start, delay, end.\<close>

definition delay_flow :: Flow where
  "delay_flow = mk_flow
     [mk_node ''s'' ''start'' None, mk_node ''d'' ''delay'' None, mk_node ''e'' ''end'' None]
     [mk_conn ''c1'' ''s'' ''d'' None, mk_conn ''c2'' ''d'' ''e'' None]"

text \<open>start, end.\<close>

definition straight_flow :: Flow where
  "straight_flow = mk_flow
     [mk_node ''s'' ''start'' None, mk_node ''e'' ''end'' None]
     [mk_conn ''c1'' ''s'' ''e'' None]"

text \<open>
  Two start nodes and an end node, no connection: the check made on publishing (a start
  node, an end node, distinct ids, sound connections) lets this flow through.
\<close>

definition two_start_flow :: Flow where
  "two_start_flow = mk_flow
     [mk_node ''s1'' ''start'' None, mk_node ''s2'' ''start'' None, mk_node ''e'' ''end'' None]
     []"

text \<open>A service that stores one published flow and nothing else; the clock shows 0.\<close>

definition flow_store :: "Flow \<Rightarrow> Service" where
  "flow_store flow =
     \<lparr>flows = [flow_id flow \<mapsto> flow_row flow], executions = Map.empty,
      execution_logs = [], activeExecutions = {}, clock = int, ticks = 0\<rparr>"

text \<open>
  The invariants of a flow as the specification's data model lists them, for comparison
  with what \<open>validateFlowStructure\<close> accepts (this definition is not taken from the
  code): exactly one start node, at least one end node, no duplicate node ids, and every
  connection endpoint an existing node id.
\<close>

definition spec_invariants :: "FlowNode list \<Rightarrow> FlowConnection list \<Rightarrow> bool" where
  "spec_invariants ns conns \<longleftrightarrow>
     length (filter (\<lambda>node. node_type node = ''start'') ns) = 1 \<and>
     filter (\<lambda>node. node_type node = ''end'') ns \<noteq> [] \<and>
     distinct (map node_id ns) \<and>
     list_all (\<lambda>conn. sourceNodeId conn \<in> set (map node_id ns) \<and>
                       targetNodeId conn \<in> set (map node_id ns)) conns"

text \<open>
  What a finished run leaves behind, read off the result of \<open>executeFlowAsync\<close>:
  the stored status, output and error message of an execution, and the levels and
  messages of the log in order.
\<close>

definition run_service :: "((exn + unit) \<times> Service) option \<Rightarrow> Service option" where
  "run_service run = (case run of Some (Inr u, s) \<Rightarrow> Some s | _ \<Rightarrow> None)"

definition status_of :: "string \<Rightarrow> Service \<Rightarrow> string option" where
  "status_of eid s = map_option row_status (executions s eid)"

definition output_of :: "string \<Rightarrow> Service \<Rightarrow> json option" where
  "output_of eid s = Option.bind (executions s eid) output_data"

definition error_of :: "string \<Rightarrow> Service \<Rightarrow> string option" where
  "error_of eid s = Option.bind (executions s eid) error_message"

definition log_levels :: "Service \<Rightarrow> string list" where
  "log_levels s = map level (execution_logs s)"

definition log_messages :: "Service \<Rightarrow> string list" where
  "log_messages s = map message (execution_logs s)"

text \<open>
  A run of \<open>delay_flow\<close> with a cancellation in it. \<open>waiting_in_delay\<close> is the run
  after its first part and the pass for the start node, suspended in the delay node's
  timer; \<open>cancelled_meanwhile\<close> is \<open>cancelExecution\<close> served at that moment;
  \<open>resumed_after_cancel\<close> is the run continued from there to its end.
\<close>

definition waiting_in_delay :: "json \<times> ExecutionContext \<times> int \<times> Service" where
  "waiting_in_delay =
     (case executeFlowAsync_begin ''x1'' delay_flow (JObj []) (mk_service delay_flow ''pending'') of
        (Inr context, s) \<Rightarrow>
          (case executeNodes_body (mk_node ''s'' ''start'' None) (inputData context) context s of
             (result, context', s') \<Rightarrow>
               (result, executeNodes_enter (mk_node ''d'' ''delay'' None) context' s'))
      | (Inl err, s) \<Rightarrow> (JUndefined, example_context, 0, s))"

definition cancelled_meanwhile :: "(exn + ExecutionRow) \<times> Service" where
  "cancelled_meanwhile = cancelExecution ''x1'' (snd (snd (snd waiting_in_delay)))"

definition resumed_after_cancel :: "Service option" where
  "resumed_after_cancel =
     (case waiting_in_delay of
        (result, context1, t0, s) \<Rightarrow>
          (case executeNodes_leave (mk_node ''d'' ''delay'' None) result context1 t0
                  (snd cancelled_meanwhile) of
             (result', context2, s') \<Rightarrow>
               (case executeNodes_loop delay_flow
                       (getNextNode delay_flow (mk_node ''d'' ''delay'' None) result')
                       result' context2 s' of
                  None \<Rightarrow> None
                | Some (result'', context3, s'') \<Rightarrow>
                    Some (executeFlowAsync_end ''x1'' context3 (Inr result'') s''))))"

section \<open>Properties\<close>

lemmas example_defs = mk_node_def mk_conn_def mk_flow_def mk_service_def flow_row_def example_context_def
  increment_node_def increment_flow_def http_node_def cyclic_flow_def dead_end_flow_def
  condition_node_def branch_flow_def delay_flow_def straight_flow_def
  two_start_flow_def flow_store_def

subsection \<open>The condition node and the choice of the next node\<close>

text \<open>
  C3, as the code has it: the executor of a condition node only checks that
  \<open>config.condition\<close> is present and truthy, and returns its input unchanged, with
  no branch chosen; \<open>getNextNode\<close> takes the target of the first outgoing connection
  in declaration order, whatever the data and whatever the \<open>sourceHandle\<close> of the
  connections.
\<close>

theorem condition_passes_input_first_connection:
  "executeConditionNode node input ctx =
     (if truthy (cfg node ''condition'') then (Inr input, ctx)
      else (Inl (Error ''Condition node missing condition configuration''), ctx)) \<and>
   getNextNode flow node data =
     (case filter (\<lambda>conn. sourceNodeId conn = node_id node) (connections flow) of
        [] \<Rightarrow> None
      | conn # rest \<Rightarrow> find (\<lambda>n. node_id n = targetNodeId conn) (nodes flow)) \<and>
   getNextNode
     (flow\<lparr>connections := map (\<lambda>conn. conn\<lparr>sourceHandle := h conn\<rparr>) (connections flow)\<rparr>)
     node data' = getNextNode flow node data"
proof (intro conjI)
  show "executeConditionNode node input ctx =
     (if truthy (cfg node ''condition'') then (Inr input, ctx)
      else (Inl (Error ''Condition node missing condition configuration''), ctx))"
    by (simp add: executeConditionNode_def)
  show "getNextNode flow node data =
     (case filter (\<lambda>conn. sourceNodeId conn = node_id node) (connections flow) of
        [] \<Rightarrow> None
      | conn # rest \<Rightarrow> find (\<lambda>n. node_id n = targetNodeId conn) (nodes flow))"
    by (simp add: getNextNode_def Let_def split: list.splits)
  have "filter (\<lambda>conn. sourceNodeId conn = node_id node)
          (map (\<lambda>conn. conn\<lparr>sourceHandle := h conn\<rparr>) (connections flow)) =
        map (\<lambda>conn. conn\<lparr>sourceHandle := h conn\<rparr>)
          (filter (\<lambda>conn. sourceNodeId conn = node_id node) (connections flow))"
    by (induction "connections flow" arbitrary: flow) (simp_all add: filter_map comp_def)
  then show "getNextNode
     (flow\<lparr>connections := map (\<lambda>conn. conn\<lparr>sourceHandle := h conn\<rparr>) (connections flow)\<rparr>)
     node data' = getNextNode flow node data"
    by (cases "filter (\<lambda>conn. sourceNodeId conn = node_id node) (connections flow)")
       (simp_all add: getNextNode_def Let_def)
qed

theorem condition_passes_input_first_connection_witness:
  "executeConditionNode (mk_node ''c'' ''condition'' None) (JNum 1) example_context =
     (Inl (Error ''Condition node missing condition configuration''), example_context) \<and>
   executeConditionNode condition_node (JNum 1) example_context = (Inr (JNum 1), example_context) \<and>
   getNextNode branch_flow condition_node (JNum 1) = Some (mk_node ''other'' ''end'' None) \<and>
   getNextNode
     (branch_flow\<lparr>connections :=
        map (\<lambda>conn. conn\<lparr>sourceHandle := Some ''true''\<rparr>) (connections branch_flow)\<rparr>)
     condition_node (JNum 2) = Some (mk_node ''other'' ''end'' None)"
proof -
  note t = condition_passes_input_first_connection
  have a: "executeConditionNode (mk_node ''c'' ''condition'' None) (JNum 1) example_context =
     (Inl (Error ''Condition node missing condition configuration''), example_context)"
    using t[where node = "mk_node ''c'' ''condition'' None" and input = "JNum 1"
              and ctx = example_context, THEN conjunct1]
    by (simp add: cfg_def mk_node_def)
  have b: "executeConditionNode condition_node (JNum 1) example_context =
     (Inr (JNum 1), example_context)"
    using t[where node = condition_node and input = "JNum 1"
              and ctx = example_context, THEN conjunct1]
    by (simp add: cfg_def condition_node_def mk_node_def)
  have c: "getNextNode branch_flow condition_node (JNum 1) = Some (mk_node ''other'' ''end'' None)"
    using t[where node = condition_node and flow = branch_flow and data = "JNum 1",
            THEN conjunct2, THEN conjunct1]
    by (simp add: example_defs)
  have d: "getNextNode
     (branch_flow\<lparr>connections :=
        map (\<lambda>conn. conn\<lparr>sourceHandle := Some ''true''\<rparr>) (connections branch_flow)\<rparr>)
     condition_node (JNum 2) = Some (mk_node ''other'' ''end'' None)"
    using t[where node = condition_node and flow = branch_flow and data = "JNum 1"
              and data' = "JNum 2" and h = "\<lambda>conn. Some ''true''",
            THEN conjunct2, THEN conjunct2] c
    by simp
  from a b c d show ?thesis by (intro conjI)
qed

text \<open>
  C3 as stated fails: with a connection without handle declared before the \<open>true\<close>
  and the \<open>false\<close> branch, the code goes to the first one, which neither branch
  of the specification's rule selects.
\<close>

theorem condition_branch_counterexample:
  "executeConditionNode condition_node (JObj [(''x'', JNum 5)]) example_context =
     (Inr (JObj [(''x'', JNum 5)]), example_context) \<and>
   getNextNode branch_flow condition_node (JObj [(''x'', JNum 5)]) = Some (mk_node ''other'' ''end'' None) \<and>
   spec_conditionNext branch_flow condition_node ''true'' = Some (mk_node ''yes'' ''end'' None) \<and>
   spec_conditionNext branch_flow condition_node ''false'' = Some (mk_node ''no'' ''end'' None)"
  by (simp add: example_defs cfg_def executeConditionNode_def getNextNode_def spec_conditionNext_def)

subsection \<open>The variable node\<close>

text \<open>
  C8, as the code has it: \<open>set\<close> stores the configured value under the configured
  name and passes the input through; \<open>get\<close> returns the variable's value
  (\<open>undefined\<close> when it is not set) and leaves the context alone; every other
  operation, \<open>increment\<close>, \<open>decrement\<close> and \<open>append\<close> included, throws
  \<open>Unsupported variable operation\<close> and changes nothing.
\<close>

theorem executeVariableNode_set_get:
  "(cfg node ''operation'' = JStr ''set'' \<longrightarrow>
      executeVariableNode node input ctx =
        (Inr input, ctx\<lparr>ctx_variables :=
           (ctx_variables ctx)(cfg node ''variableName'' \<mapsto> cfg node ''value'')\<rparr>)) \<and>
   (cfg node ''operation'' = JStr ''get'' \<longrightarrow>
      executeVariableNode node input ctx =
        (Inr (case ctx_variables ctx (cfg node ''variableName'') of
                None \<Rightarrow> JUndefined | Some v \<Rightarrow> v), ctx)) \<and>
   (cfg node ''operation'' \<noteq> JStr ''set'' \<and> cfg node ''operation'' \<noteq> JStr ''get'' \<longrightarrow>
      executeVariableNode node input ctx =
        (Inl (Error (''Unsupported variable operation: '' @ toString (cfg node ''operation''))),
         ctx))"
  by (simp add: executeVariableNode_def)

theorem executeVariableNode_set_get_witness:
  "executeVariableNode
     (mk_node ''v'' ''variable'' (Some [''operation'' \<mapsto> JStr ''get'',
        ''variableName'' \<mapsto> JStr ''counter''])) (JNum 7) example_context =
     (Inr (JNum 1), example_context) \<and>
   fst (executeVariableNode
     (mk_node ''v'' ''variable'' (Some [''operation'' \<mapsto> JStr ''set'',
        ''variableName'' \<mapsto> JStr ''counter'', ''value'' \<mapsto> JNum 2])) (JNum 7) example_context) =
     Inr (JNum 7) \<and>
   ctx_variables (snd (executeVariableNode
     (mk_node ''v'' ''variable'' (Some [''operation'' \<mapsto> JStr ''set'',
        ''variableName'' \<mapsto> JStr ''counter'', ''value'' \<mapsto> JNum 2])) (JNum 7) example_context))
     (JStr ''counter'') = Some (JNum 2) \<and>
   fst (executeVariableNode
     (mk_node ''v'' ''variable'' (Some [''operation'' \<mapsto> JStr ''append'',
        ''variableName'' \<mapsto> JStr ''counter''])) (JNum 7) example_context) =
     Inl (Error ''Unsupported variable operation: append'')"
  using executeVariableNode_set_get [of "mk_node ''v'' ''variable'' (Some [''operation'' \<mapsto> JStr ''get'',
        ''variableName'' \<mapsto> JStr ''counter''])" "JNum 7" example_context]
    executeVariableNode_set_get [of "mk_node ''v'' ''variable'' (Some [''operation'' \<mapsto> JStr ''set'',
        ''variableName'' \<mapsto> JStr ''counter'', ''value'' \<mapsto> JNum 2])" "JNum 7" example_context]
    executeVariableNode_set_get [of "mk_node ''v'' ''variable'' (Some [''operation'' \<mapsto> JStr ''append'',
        ''variableName'' \<mapsto> JStr ''counter''])" "JNum 7" example_context]
  by (simp add: example_defs cfg_def)

text \<open>
  C8 as stated fails: asked to increment a counter that holds 1, the executor throws; the
  counter is not changed and the input is not passed through.
\<close>

theorem variable_increment_counterexample:
  "executeVariableNode increment_node (JNum 7) example_context =
     (Inl (Error ''Unsupported variable operation: increment''), example_context) \<and>
   ctx_variables example_context (JStr ''counter'') = Some (JNum 1)"
  by (simp add: example_defs cfg_def executeVariableNode_def)

subsection \<open>executeNode at its boundary\<close>

text \<open>
  C10: \<open>executeNode\<close> always returns a result. The result names the node, repeats
  the input and measures the time between its two clock readings; when the switch
  throws, the result has \<open>success = false\<close>, status \<open>failed\<close>, \<open>outputData\<close>
  \<open>null\<close> and the message of the error, otherwise it has \<open>success = true\<close> and
  the output. The switch throws for an unrecognised node type, for a condition node
  without condition, and for a variable node whose operation is neither \<open>set\<close> nor
  \<open>get\<close>.
\<close>

theorem executeNode_total:
  "(case executeNode tstart tend node ctx input of
      (r, ctx') \<Rightarrow>
        res_nodeId r = node_id node \<and> res_inputData r = input \<and> executionTime r = tend - tstart \<and>
        (case fst (executeNode_switch node ctx input) of
           Inr out \<Rightarrow> success r \<and> res_status r = ''completed'' \<and> res_outputData r = out \<and>
                      error r = None
         | Inl e \<Rightarrow> \<not> success r \<and> res_status r = ''failed'' \<and> res_outputData r = JNull \<and>
                     error r = Some (message_of e))) \<and>
   (node_type node \<notin> {''start'', ''end'', ''condition'', ''action'', ''delay'', ''variable''} \<longrightarrow>
      fst (executeNode_switch node ctx input) =
        Inl (Error (''Unsupported node type: '' @ node_type node))) \<and>
   (node_type node = ''condition'' \<and> \<not> truthy (cfg node ''condition'') \<longrightarrow>
      fst (executeNode_switch node ctx input) =
        Inl (Error ''Condition node missing condition configuration'')) \<and>
   (node_type node = ''variable'' \<and> cfg node ''operation'' \<noteq> JStr ''set'' \<and>
      cfg node ''operation'' \<noteq> JStr ''get'' \<longrightarrow>
      fst (executeNode_switch node ctx input) =
        Inl (Error (''Unsupported variable operation: '' @ toString (cfg node ''operation''))))"
proof (intro conjI impI)
  show "case executeNode tstart tend node ctx input of
      (r, ctx') \<Rightarrow>
        res_nodeId r = node_id node \<and> res_inputData r = input \<and> executionTime r = tend - tstart \<and>
        (case fst (executeNode_switch node ctx input) of
           Inr out \<Rightarrow> success r \<and> res_status r = ''completed'' \<and> res_outputData r = out \<and>
                      error r = None
         | Inl e \<Rightarrow> \<not> success r \<and> res_status r = ''failed'' \<and> res_outputData r = JNull \<and>
                     error r = Some (message_of e))"
    by (cases "executeNode_switch node ctx input")
       (auto simp: executeNode_def split: sum.splits)
next
  assume "node_type node \<notin> {''start'', ''end'', ''condition'', ''action'', ''delay'', ''variable''}"
  then show "fst (executeNode_switch node ctx input) =
        Inl (Error (''Unsupported node type: '' @ node_type node))"
    by (simp add: executeNode_switch_def)
next
  assume "node_type node = ''condition'' \<and> \<not> truthy (cfg node ''condition'')"
  then show "fst (executeNode_switch node ctx input) =
        Inl (Error ''Condition node missing condition configuration'')"
    by (simp add: executeNode_switch_def executeConditionNode_def)
next
  assume "node_type node = ''variable'' \<and> cfg node ''operation'' \<noteq> JStr ''set'' \<and>
      cfg node ''operation'' \<noteq> JStr ''get''"
  then show "fst (executeNode_switch node ctx input) =
        Inl (Error (''Unsupported variable operation: '' @ toString (cfg node ''operation'')))"
    by (simp add: executeNode_switch_def executeVariableNode_def)
qed

theorem executeNode_total_witness:
  "executeNode 10 15 (mk_node ''w'' ''webhook'' None) example_context (JNum 7) =
     (\<lparr>res_nodeId = ''w'', success = False, res_status = ''failed'', res_inputData = JNum 7,
       res_outputData = JNull, executionTime = 5,
       error = Some ''Unsupported node type: webhook''\<rparr>, example_context) \<and>
   fst (executeNode 10 15 (mk_node ''c'' ''condition'' (Some Map.empty)) example_context (JNum 7)) =
     \<lparr>res_nodeId = ''c'', success = False, res_status = ''failed'', res_inputData = JNum 7,
      res_outputData = JNull, executionTime = 5,
      error = Some ''Condition node missing condition configuration''\<rparr> \<and>
   fst (executeNode 10 15 increment_node example_context (JNum 7)) =
     \<lparr>res_nodeId = ''v'', success = False, res_status = ''failed'', res_inputData = JNum 7,
      res_outputData = JNull, executionTime = 5,
      error = Some ''Unsupported variable operation: increment''\<rparr>"
  using executeNode_total [where tstart = 10 and tend = 15 and ctx = example_context
      and input = "JNum 7" and node = "mk_node ''w'' ''webhook'' None"]
    executeNode_total [where tstart = 10 and tend = 15 and ctx = example_context
      and input = "JNum 7" and node = "mk_node ''c'' ''condition'' (Some Map.empty)"]
    executeNode_total [where tstart = 10 and tend = 15 and ctx = example_context
      and input = "JNum 7" and node = increment_node]
  by (cases "executeNode 10 15 (mk_node ''w'' ''webhook'' None) example_context (JNum 7)";
      cases "executeNode 10 15 (mk_node ''c'' ''condition'' (Some Map.empty)) example_context (JNum 7)";
      cases "executeNode 10 15 increment_node example_context (JNum 7)")
     (simp add: example_defs cfg_def executeNode_def executeNode_switch_def
        executeConditionNode_def executeVariableNode_def)

subsection \<open>Termination of the traversal loop\<close>

text \<open>
  The next node does not depend on the data; one pass of the loop, as an equation.
\<close>

lemma getNextNode_data: "getNextNode flow node d = getNextNode flow node d'"
  by (simp add: getNextNode_def)

lemma loop_at_none: "executeNodes_loop flow None result ctx s = Some (result, ctx, s)"
  by (subst executeNodes_loop.simps) simp

lemma loop_at_node:
  assumes "executeNodes_body node result ctx s = (result', ctx', s')"
  shows "executeNodes_loop flow (Some node) result ctx s =
           (if node_type node = ''end'' then Some (result', ctx', s')
            else executeNodes_loop flow (getNextNode flow node JNull) result' ctx' s')"
proof -
  have "getNextNode flow node result' = getNextNode flow node JNull"
    by (rule getNextNode_data)
  with assms show ?thesis
    by (subst executeNodes_loop.simps) simp
qed

lemma loop_returns_if_stops:
  "stops_within k flow node \<Longrightarrow> \<exists>r. executeNodes_loop flow (Some node) result ctx s = Some r"
proof (induction k arbitrary: node result ctx s)
  case 0
  obtain result' ctx' s' where
    body: "executeNodes_body node result ctx s = (result', ctx', s')"
    by (cases "executeNodes_body node result ctx s") auto
  from 0 show ?case
    by (auto simp: loop_at_node[OF body] loop_at_none)
next
  case (Suc k)
  obtain result' ctx' s' where
    body: "executeNodes_body node result ctx s = (result', ctx', s')"
    by (cases "executeNodes_body node result ctx s") auto
  show ?case
  proof (cases "getNextNode flow node JNull")
    case None
    then show ?thesis by (simp add: loop_at_node[OF body] loop_at_none)
  next
    case (Some nxt)
    show ?thesis
    proof (cases "node_type node = ''end''")
      case True
      then show ?thesis by (simp add: loop_at_node[OF body])
    next
      case False
      with Some Suc.prems have "stops_within k flow nxt" by simp
      from Suc.IH[OF this] False Some show ?thesis
        by (simp add: loop_at_node[OF body])
    qed
  qed
qed

lemma loop_stops_if_returns:
  "executeNodes_loop flow cur result ctx s = Some r \<Longrightarrow>
     (\<forall>node. cur = Some node \<longrightarrow> (\<exists>k. stops_within k flow node))"
proof (induction flow cur result ctx s r rule: executeNodes_loop.raw_induct[rotated 1, consumes 1])
  case (1 loop flow cur result ctx s r)
  show ?case
  proof (intro allI impI)
    fix node assume cur: "cur = Some node"
    show "\<exists>k. stops_within k flow node"
    proof (cases "node_type node = ''end''")
      case True
      then have "stops_within 0 flow node" by simp
      then show ?thesis ..
    next
      case False
      obtain result' ctx' s' where body: "executeNodes_body node result ctx s = (result', ctx', s')"
        by (cases "executeNodes_body node result ctx s") auto
      with 1(2) cur False have rec: "loop flow (getNextNode flow node result') result' ctx' s' = Some r"
        by simp
      show ?thesis
      proof (cases "getNextNode flow node JNull")
        case None
        with False have "stops_within 0 flow node" by simp
        then show ?thesis ..
      next
        case (Some nxt)
        moreover have "getNextNode flow node result' = getNextNode flow node JNull"
          by (rule getNextNode_data)
        ultimately have "getNextNode flow node result' = Some nxt" by simp
        with 1(1)[OF rec] obtain k where "stops_within k flow nxt" by auto
        with Some False have "stops_within (Suc k) flow node" by simp
        then show ?thesis ..
      qed
    qed
  qed
qed

lemma executeNodes_returns_iff:
  "(\<exists>r. executeNodes flow ctx s = Some r) \<longleftrightarrow>
      (case find (\<lambda>n. node_type n = ''start'') (nodes flow) of
         None \<Rightarrow> True
       | Some startNode \<Rightarrow>
           (\<exists>r. executeNodes_loop flow (Some startNode) (inputData ctx) ctx s = Some r))"
proof (cases "find (\<lambda>n. node_type n = ''start'') (nodes flow)")
  case None
  then show ?thesis by (simp add: executeNodes_def)
next
  case (Some startNode)
  show ?thesis
  proof (cases "executeNodes_loop flow (Some startNode) (inputData ctx) ctx s")
    case None
    with Some show ?thesis by (simp add: executeNodes_def)
  next
    case inner: (Some r)
    with Some show ?thesis by (cases r) (simp add: executeNodes_def)
  qed
qed

lemma executeNodes_failure:
  "executeNodes flow ctx s = Some (Inl e, ctx', s') \<Longrightarrow> e = Error ''No start node found in flow''"
  by (cases "find (\<lambda>n. node_type n = ''start'') (nodes flow)")
     (auto simp: executeNodes_def split: option.splits)

lemma loop_returns_iff:
  "(\<exists>r. executeNodes_loop flow (Some node) result ctx s = Some r) \<longleftrightarrow>
      (\<exists>k. stops_within k flow node)"
proof
  assume "\<exists>r. executeNodes_loop flow (Some node) result ctx s = Some r"
  then obtain r where "executeNodes_loop flow (Some node) result ctx s = Some r" ..
  from loop_stops_if_returns[OF this] show "\<exists>k. stops_within k flow node" by simp
next
  assume "\<exists>k. stops_within k flow node"
  then obtain k where "stops_within k flow node" ..
  then show "\<exists>r. executeNodes_loop flow (Some node) result ctx s = Some r"
    by (rule loop_returns_if_stops)
qed


text \<open>
  C2, as the code has it: the loop has no revisit guard; \<open>executionPath\<close> is only
  appended to and nothing fails with \<open>CycleDetected\<close>. The loop returns exactly
  when the walk along the chosen next nodes reaches an \<open>end\<close> node or a node
  without next node, \<open>executeNodes\<close> returns exactly when there is no start node or
  the walk from the start node stops, and the only error \<open>executeNodes\<close> throws is
  the missing start node.
\<close>

theorem traversal_terminates_iff_walk_stops:
  "((\<exists>r. executeNodes_loop flow (Some node) result ctx s = Some r) \<longleftrightarrow>
      (\<exists>k. stops_within k flow node)) \<and>
   ((\<exists>r. executeNodes flow ctx s = Some r) \<longleftrightarrow>
      (case find (\<lambda>n. node_type n = ''start'') (nodes flow) of
         None \<Rightarrow> True
       | Some startNode \<Rightarrow> (\<exists>k. stops_within k flow startNode))) \<and>
   (\<forall>e ctx' s'. executeNodes flow ctx s = Some (Inl e, ctx', s') \<longrightarrow>
      e = Error ''No start node found in flow'')"
proof (intro conjI allI impI)
  show "(\<exists>r. executeNodes_loop flow (Some node) result ctx s = Some r) \<longleftrightarrow>
      (\<exists>k. stops_within k flow node)"
    by (rule loop_returns_iff)
  show "(\<exists>r. executeNodes flow ctx s = Some r) \<longleftrightarrow>
      (case find (\<lambda>n. node_type n = ''start'') (nodes flow) of
         None \<Rightarrow> True
       | Some startNode \<Rightarrow> (\<exists>k. stops_within k flow startNode))"
    by (simp only: executeNodes_returns_iff loop_returns_iff)
  show "e = Error ''No start node found in flow''"
    if "executeNodes flow ctx s = Some (Inl e, ctx', s')" for e ctx' s'
    using that by (rule executeNodes_failure)
qed

theorem traversal_terminates_iff_walk_stops_witness:
  "(\<exists>r. executeNodes straight_flow example_context (mk_service straight_flow ''running'') = Some r) \<and>
   stops_within 1 straight_flow (mk_node ''s'' ''start'' None)"
proof -
  have w: "stops_within 1 straight_flow (mk_node ''s'' ''start'' None)"
    by (simp add: example_defs getNextNode_def)
  have f: "find (\<lambda>n. node_type n = ''start'') (nodes straight_flow) = Some (mk_node ''s'' ''start'' None)"
    by (simp add: example_defs)
  have e: "\<exists>k. stops_within k straight_flow (mk_node ''s'' ''start'' None)"
    by (rule exI[where x = 1]) (rule w)
  note t = traversal_terminates_iff_walk_stops
         [where flow = straight_flow and ctx = example_context
            and s = "mk_service straight_flow ''running''", THEN conjunct2, THEN conjunct1]
  have "\<exists>r. executeNodes straight_flow example_context (mk_service straight_flow ''running'') = Some r"
    unfolding t f option.case by (rule e)
  then show ?thesis using w by (rule conjI)
qed

text \<open>
  C2 as stated fails: in \<open>cyclic_flow\<close> the first connection of the action leads
  back to the action; the run of this flow never returns, so it never reaches
  \<open>failed\<close>.
\<close>

lemma cyclic_next: "getNextNode cyclic_flow http_node d = Some http_node"
  by (simp add: example_defs getNextNode_def)

lemma http_node_type: "node_type http_node \<noteq> ''end''"
  by (simp add: http_node_def mk_node_def)

lemma cyclic_never_stops: "\<not> stops_within k cyclic_flow http_node"
  by (induction k) (simp_all add: cyclic_next http_node_type)

lemma cyclic_loop_at_action: "executeNodes_loop cyclic_flow (Some http_node) result ctx s = None"
proof (cases "executeNodes_loop cyclic_flow (Some http_node) result ctx s")
  case None
  then show ?thesis .
next
  case (Some r)
  from loop_stops_if_returns[OF this] have "\<exists>k. stops_within k cyclic_flow http_node" by simp
  with cyclic_never_stops show ?thesis by simp
qed

lemma cyclic_executeNodes: "executeNodes cyclic_flow ctx s = None"
proof -
  have f: "find (\<lambda>n. node_type n = ''start'') (nodes cyclic_flow) = Some (mk_node ''s'' ''start'' None)"
    by (simp add: example_defs)
  have n: "getNextNode cyclic_flow (mk_node ''s'' ''start'' None) JNull = Some http_node"
    by (simp add: example_defs getNextNode_def)
  have t: "node_type (mk_node ''s'' ''start'' None) \<noteq> ''end''"
    by (simp add: mk_node_def)
  obtain result' ctx' s' where
    body: "executeNodes_body (mk_node ''s'' ''start'' None) (inputData ctx) ctx s = (result', ctx', s')"
    by (cases "executeNodes_body (mk_node ''s'' ''start'' None) (inputData ctx) ctx s") auto
  have "executeNodes_loop cyclic_flow (Some (mk_node ''s'' ''start'' None)) (inputData ctx) ctx s = None"
    by (simp add: loop_at_node[OF body] n t cyclic_loop_at_action)
  with f show ?thesis by (simp add: executeNodes_def)
qed

theorem cyclic_run_counterexample:
  "executeFlowAsync ''x1'' cyclic_flow (JObj []) (mk_service cyclic_flow ''pending'') = None"
proof -
  have "variables cyclic_flow = VarArray []"
    by (simp add: cyclic_flow_def mk_flow_def)
  then obtain ctx s where
    "executeFlowAsync_begin ''x1'' cyclic_flow (JObj []) (mk_service cyclic_flow ''pending'') = (Inr ctx, s)"
    by (simp add: executeFlowAsync_begin_def Let_def)
  then show ?thesis
    by (simp add: executeFlowAsync_def cyclic_executeNodes)
qed

subsection \<open>Whole runs\<close>

lemmas run_defs = executeFlowAsync_def executeFlowAsync_begin_def executeFlowAsync_end_def
  executeNodes_def executeNodes_body_def executeNodes_enter_def executeNodes_leave_def
  executeNode_def executeNode_switch_def executeVariableNode_def executeConditionNode_def
  executeDelayNode_def executeActionNode_def executeHttpRequest_def executeDataTransform_def
  cfg_def getNextNode_def addExecutionLog_def updateExecutionStatus_def getExecutionById_def
  cancelExecution_def now_def tick_def Let_def

lemmas observer_defs = run_service_def status_of_def output_of_def error_of_def
  log_levels_def log_messages_def

lemma body_keeps_executions:
  "executeNodes_body node result ctx s = (result', ctx', s') \<Longrightarrow> executions s' = executions s"
  by (auto simp: executeNodes_body_def executeNodes_enter_def executeNodes_leave_def Let_def
        addExecutionLog_def tick_def split: prod.splits)

lemma end_writes_completed:
  "executions s eid = Some row \<Longrightarrow>
     executions (executeFlowAsync_end eid ctx (Inr result) s) eid =
       Some (row\<lparr>row_status := ''completed'', output_data := Some result,
                 completed_at := Some (now s),
                 duration := Some (now (tick s) - startTime ctx)\<rparr>)"
  by (simp add: executeFlowAsync_end_def Let_def addExecutionLog_def tick_def)

text \<open>The run of \<open>increment_flow\<close>, evaluated.\<close>

lemma increment_run:
  "\<exists>s. executeFlowAsync ''x1'' increment_flow (JObj []) (mk_service increment_flow ''pending'') =
         Some (Inr (), s) \<and>
       status_of ''x1'' s = Some ''completed'' \<and>
       output_of ''x1'' s = Some JNull \<and>
       error_of ''x1'' s = None \<and>
       log_levels s = [''info'', ''info'', ''info'', ''info'', ''info'', ''info'', ''info'', ''info''] \<and>
       log_messages s =
         [''Flow execution started'', ''Executing node: s'', ''Node executed successfully'',
          ''Executing node: v'', ''Node executed successfully'',
          ''Executing node: e'', ''Node executed successfully'', ''Flow execution completed'']"
  by (simp add: run_defs observer_defs example_defs executeNodes_loop.simps)

text \<open>
  C1 fails on the code. The claim: when a node executor reports failure, the run becomes
  \<open>failed\<close> with the error recorded, an \<open>error\<close> entry is logged and no further
  node runs. The code, on \<open>increment_flow\<close>: \<open>executeNode\<close> reports failure for
  the variable node, yet the loop, which reads only \<open>outputData\<close> of the result, logs
  \<open>Node executed successfully\<close>, goes on to the end node with \<open>null\<close> as data, and
  the run is stored as \<open>completed\<close> with output \<open>null\<close>, no error message and no
  log entry above level \<open>info\<close>.
\<close>

theorem node_failure_swallowed:
  "success (fst (executeNode 0 1 increment_node example_context (JObj []))) = False \<and>
   error (fst (executeNode 0 1 increment_node example_context (JObj []))) =
     Some ''Unsupported variable operation: increment'' \<and>
   map_option (status_of ''x1'')
     (run_service (executeFlowAsync ''x1'' increment_flow (JObj [])
        (mk_service increment_flow ''pending''))) = Some (Some ''completed'') \<and>
   map_option (output_of ''x1'')
     (run_service (executeFlowAsync ''x1'' increment_flow (JObj [])
        (mk_service increment_flow ''pending''))) = Some (Some JNull) \<and>
   map_option (error_of ''x1'')
     (run_service (executeFlowAsync ''x1'' increment_flow (JObj [])
        (mk_service increment_flow ''pending''))) = Some None \<and>
   map_option log_levels
     (run_service (executeFlowAsync ''x1'' increment_flow (JObj [])
        (mk_service increment_flow ''pending''))) =
     Some [''info'', ''info'', ''info'', ''info'', ''info'', ''info'', ''info'', ''info''] \<and>
   map_option log_messages
     (run_service (executeFlowAsync ''x1'' increment_flow (JObj [])
        (mk_service increment_flow ''pending''))) =
     Some [''Flow execution started'', ''Executing node: s'', ''Node executed successfully'',
           ''Executing node: v'', ''Node executed successfully'',
           ''Executing node: e'', ''Node executed successfully'', ''Flow execution completed'']"
proof -
  have "fst (executeNode 0 1 increment_node example_context (JObj [])) =
          \<lparr>res_nodeId = ''v'', success = False, res_status = ''failed'',
           res_inputData = JObj [], res_outputData = JNull, executionTime = 1,
           error = Some ''Unsupported variable operation: increment''\<rparr>"
    by (simp add: executeNode_def executeNode_switch_def executeVariableNode_def cfg_def
          increment_node_def mk_node_def)
  moreover obtain s where
    "executeFlowAsync ''x1'' increment_flow (JObj []) (mk_service increment_flow ''pending'') =
       Some (Inr (), s)"
    "status_of ''x1'' s = Some ''completed''" "output_of ''x1'' s = Some JNull"
    "error_of ''x1'' s = None"
    "log_levels s = [''info'', ''info'', ''info'', ''info'', ''info'', ''info'', ''info'', ''info'']"
    "log_messages s =
         [''Flow execution started'', ''Executing node: s'', ''Node executed successfully'',
          ''Executing node: v'', ''Node executed successfully'',
          ''Executing node: e'', ''Node executed successfully'', ''Flow execution completed'']"
    using increment_run by blast
  ultimately show ?thesis by (simp add: run_service_def)
qed

subsection \<open>A node without outgoing connection\<close>

text \<open>
  C4, as the code has it: at a node that is not an \<open>end\<close> node and has no outgoing
  connection the loop ends normally after that node, with the node's output as result,
  and the run is then stored as \<open>completed\<close> with that output; no error is recorded.
\<close>

theorem dead_end_completes:
  assumes "node_type node \<noteq> ''end''"
    and "filter (\<lambda>conn. sourceNodeId conn = node_id node) (connections flow) = []"
    and "executions s eid = Some row"
  shows "\<exists>result' ctx' s'.
           executeNodes_body node result ctx s = (result', ctx', s') \<and>
           executeNodes_loop flow (Some node) result ctx s = Some (result', ctx', s') \<and>
           status_of eid (executeFlowAsync_end eid ctx' (Inr result') s') = Some ''completed'' \<and>
           output_of eid (executeFlowAsync_end eid ctx' (Inr result') s') = Some result' \<and>
           error_of eid (executeFlowAsync_end eid ctx' (Inr result') s') = error_message row"
proof -
  obtain result' ctx' s' where
    body: "executeNodes_body node result ctx s = (result', ctx', s')"
    by (cases "executeNodes_body node result ctx s") auto
  from assms(2) have "getNextNode flow node result' = None"
    by (simp add: getNextNode_def)
  with assms(1) body have
    loop: "executeNodes_loop flow (Some node) result ctx s = Some (result', ctx', s')"
    by (subst executeNodes_loop.simps) (simp add: loop_at_none)
  from body assms(3) have "executions s' eid = Some row"
    by (simp add: body_keeps_executions)
  then have "executions (executeFlowAsync_end eid ctx' (Inr result') s') eid =
       Some (row\<lparr>row_status := ''completed'', output_data := Some result',
                 completed_at := Some (now s'),
                 duration := Some (now (tick s') - startTime ctx')\<rparr>)"
    by (rule end_writes_completed)
  then have "status_of eid (executeFlowAsync_end eid ctx' (Inr result') s') = Some ''completed''"
    "output_of eid (executeFlowAsync_end eid ctx' (Inr result') s') = Some result'"
    "error_of eid (executeFlowAsync_end eid ctx' (Inr result') s') = error_message row"
    by (simp_all add: status_of_def output_of_def error_of_def)
  with body loop show ?thesis by blast
qed

theorem dead_end_completes_witness:
  "\<exists>result' ctx' s'.
     executeNodes_body http_node (JObj []) example_context (mk_service dead_end_flow ''running'') =
       (result', ctx', s') \<and>
     executeNodes_loop dead_end_flow (Some http_node) (JObj []) example_context
       (mk_service dead_end_flow ''running'') = Some (result', ctx', s') \<and>
     status_of ''x1'' (executeFlowAsync_end ''x1'' ctx' (Inr result') s') = Some ''completed'' \<and>
     output_of ''x1'' (executeFlowAsync_end ''x1'' ctx' (Inr result') s') = Some result' \<and>
     error_of ''x1'' (executeFlowAsync_end ''x1'' ctx' (Inr result') s') = None"
proof -
  have h1: "node_type http_node \<noteq> ''end''"
    by (simp add: http_node_def mk_node_def)
  have h2: "filter (\<lambda>conn. sourceNodeId conn = node_id http_node) (connections dead_end_flow) = []"
    by (simp add: example_defs)
  have h3: "executions (mk_service dead_end_flow ''running'') ''x1'' =
      Some \<lparr>row_flow_id = ''f1'', row_status = ''running'', input_data = JObj [],
            output_data = None, error_message = None, started_at = Some 0,
            completed_at = None, duration = None\<rparr>"
    by (simp add: example_defs)
  from dead_end_completes[OF h1 h2 h3, of "JObj []" example_context]
  show ?thesis by simp
qed

text \<open>
  C4 as stated fails: in \<open>dead_end_flow\<close> the action has no outgoing connection, and
  the run ends \<open>completed\<close>, without error and without an \<open>error\<close> log entry.
\<close>

lemma dead_end_run:
  "\<exists>s. executeFlowAsync ''x1'' dead_end_flow (JObj []) (mk_service dead_end_flow ''pending'') =
         Some (Inr (), s) \<and>
       status_of ''x1'' s = Some ''completed'' \<and>
       error_of ''x1'' s = None \<and>
       log_levels s = [''info'', ''info'', ''info'', ''info'', ''info'', ''info''] \<and>
       log_messages s =
         [''Flow execution started'', ''Executing node: s'', ''Node executed successfully'',
          ''Executing node: a'', ''Node executed successfully'', ''Flow execution completed'']"
  by (simp add: run_defs observer_defs example_defs executeNodes_loop.simps)

theorem dead_end_counterexample:
  "filter (\<lambda>conn. sourceNodeId conn = ''a'') (connections dead_end_flow) = [] \<and>
   map_option (status_of ''x1'')
     (run_service (executeFlowAsync ''x1'' dead_end_flow (JObj [])
        (mk_service dead_end_flow ''pending''))) = Some (Some ''completed'') \<and>
   map_option (error_of ''x1'')
     (run_service (executeFlowAsync ''x1'' dead_end_flow (JObj [])
        (mk_service dead_end_flow ''pending''))) = Some None \<and>
   map_option log_levels
     (run_service (executeFlowAsync ''x1'' dead_end_flow (JObj [])
        (mk_service dead_end_flow ''pending''))) =
     Some [''info'', ''info'', ''info'', ''info'', ''info'', ''info''] \<and>
   map_option log_messages
     (run_service (executeFlowAsync ''x1'' dead_end_flow (JObj [])
        (mk_service dead_end_flow ''pending''))) =
     Some [''Flow execution started'', ''Executing node: s'', ''Node executed successfully'',
           ''Executing node: a'', ''Node executed successfully'', ''Flow execution completed'']"
proof -
  have "filter (\<lambda>conn. sourceNodeId conn = ''a'') (connections dead_end_flow) = []"
    by (simp add: example_defs)
  moreover obtain s where
    "executeFlowAsync ''x1'' dead_end_flow (JObj []) (mk_service dead_end_flow ''pending'') =
       Some (Inr (), s)"
    "status_of ''x1'' s = Some ''completed''" "error_of ''x1'' s = None"
    "log_levels s = [''info'', ''info'', ''info'', ''info'', ''info'', ''info'']"
    "log_messages s =
         [''Flow execution started'', ''Executing node: s'', ''Node executed successfully'',
          ''Executing node: a'', ''Node executed successfully'', ''Flow execution completed'']"
    using dead_end_run by blast
  ultimately show ?thesis by (simp add: run_service_def)
qed

subsection \<open>Status writes and cancellation\<close>

text \<open>
  C5, as the code has it: \<open>updateExecutionStatus\<close> writes the new status whatever the
  stored one is; the only check of the stored status is in \<open>cancelExecution\<close>, which
  rejects the cancellation of an execution that is completed, failed or cancelled with
  a \<open>BAD_REQUEST\<close> error and leaves everything as it was.
\<close>

theorem status_write_unguarded_cancel_guarded:
  "(executions s eid = Some row \<longrightarrow>
      executions (updateExecutionStatus eid status s) eid = Some (row\<lparr>row_status := status\<rparr>)) \<and>
   (executions s eid = Some row \<and>
    row_status row \<in> {''completed'', ''failed'', ''cancelled''} \<longrightarrow>
      cancelExecution eid s = (Inl (badRequest ''Execution cannot be cancelled''), s))"
  by (auto simp: updateExecutionStatus_def cancelExecution_def getExecutionById_def)

theorem status_write_unguarded_cancel_guarded_witness:
  "status_of ''x1'' (updateExecutionStatus ''x1'' ''failed'' (mk_service straight_flow ''running'')) =
     Some ''failed'' \<and>
   cancelExecution ''x1'' (mk_service straight_flow ''cancelled'') =
     (Inl (ApiError 400 ''BAD_REQUEST'' ''Execution cannot be cancelled''),
      mk_service straight_flow ''cancelled'')"
proof -
  have r: "executions (mk_service straight_flow st) ''x1'' =
      Some \<lparr>row_flow_id = ''f1'', row_status = st, input_data = JObj [],
            output_data = None, error_message = None, started_at = Some 0,
            completed_at = None, duration = None\<rparr>" for st
    by (simp add: example_defs)
  from status_write_unguarded_cancel_guarded
         [of "mk_service straight_flow ''running''" "''x1''" _ "''failed''", THEN conjunct1,
          rule_format, OF r]
  have "status_of ''x1'' (updateExecutionStatus ''x1'' ''failed'' (mk_service straight_flow ''running'')) =
     Some ''failed''"
    by (simp add: status_of_def)
  moreover
  from status_write_unguarded_cancel_guarded
         [of "mk_service straight_flow ''cancelled''" "''x1''" _ "''failed''", THEN conjunct2,
          rule_format, OF conjI, OF r]
  have "cancelExecution ''x1'' (mk_service straight_flow ''cancelled'') =
     (Inl (ApiError 400 ''BAD_REQUEST'' ''Execution cannot be cancelled''),
      mk_service straight_flow ''cancelled'')"
    by (simp add: badRequest_def)
  ultimately show ?thesis by (rule conjI)
qed

text \<open>
  C5 as stated fails: on a completed execution \<open>updateExecutionStatus\<close> is not
  rejected; the status becomes \<open>running\<close> again.
\<close>

theorem terminal_status_overwritten_counterexample:
  "status_of ''x1'' (mk_service straight_flow ''completed'') = Some ''completed'' \<and>
   status_of ''x1'' (updateExecutionStatus ''x1'' ''running'' (mk_service straight_flow ''completed'')) =
     Some ''running''"
  by (simp add: status_of_def updateExecutionStatus_def example_defs)

text \<open>The three stages of the cancelled run of \<open>delay_flow\<close>, evaluated.\<close>

lemma waiting_state:
  "\<exists>ctx s. waiting_in_delay = (JObj [], ctx, 8, s) \<and>
     executionPath ctx = [''s'', ''d''] \<and>
     status_of ''x1'' s = Some ''running'' \<and>
     log_messages s = [''Flow execution started'', ''Executing node: s'',
                       ''Node executed successfully'', ''Executing node: d'']"
  by (simp add: waiting_in_delay_def run_defs observer_defs example_defs)

lemma cancelled_state:
  "fst cancelled_meanwhile =
     Inr \<lparr>row_flow_id = ''f1'', row_status = ''cancelled'', input_data = JObj [],
          output_data = None, error_message = None, started_at = Some 0,
          completed_at = None, duration = None\<rparr> \<and>
   status_of ''x1'' (snd cancelled_meanwhile) = Some ''cancelled'' \<and>
   log_messages (snd cancelled_meanwhile) =
     [''Flow execution started'', ''Executing node: s'', ''Node executed successfully'',
      ''Executing node: d'', ''Execution cancelled by user'']"
  by (simp add: cancelled_meanwhile_def waiting_in_delay_def run_defs observer_defs example_defs)

lemma resumed_state:
  "\<exists>s. resumed_after_cancel = Some s \<and>
     status_of ''x1'' s = Some ''completed'' \<and>
     output_of ''x1'' s = Some (JObj []) \<and>
     log_messages s =
       [''Flow execution started'', ''Executing node: s'', ''Node executed successfully'',
        ''Executing node: d'', ''Execution cancelled by user'', ''Node executed successfully'',
        ''Executing node: e'', ''Node executed successfully'', ''Flow execution completed'']"
  by (simp add: resumed_after_cancel_def cancelled_meanwhile_def waiting_in_delay_def
        run_defs observer_defs example_defs executeNodes_loop.simps)

text \<open>
  C6 fails on the code. The claim: cancelling a running execution sets its status to
  \<open>cancelled\<close> and the traversal loop observes the cancellation and stops before the
  next node. The code, on \<open>delay_flow\<close> cancelled while the delay node waits: the
  cancellation is accepted and stores \<open>cancelled\<close>, but the loop never looks for it;
  the delay node finishes, the end node is executed, and the final write of the run
  replaces \<open>cancelled\<close> by \<open>completed\<close>.
\<close>

theorem cancel_does_not_stop_run:
  "status_of ''x1'' (snd (snd (snd waiting_in_delay))) = Some ''running'' \<and>
   fst cancelled_meanwhile =
     Inr \<lparr>row_flow_id = ''f1'', row_status = ''cancelled'', input_data = JObj [],
          output_data = None, error_message = None, started_at = Some 0,
          completed_at = None, duration = None\<rparr> \<and>
   status_of ''x1'' (snd cancelled_meanwhile) = Some ''cancelled'' \<and>
   log_messages (snd cancelled_meanwhile) =
     [''Flow execution started'', ''Executing node: s'', ''Node executed successfully'',
      ''Executing node: d'', ''Execution cancelled by user''] \<and>
   map_option log_messages resumed_after_cancel =
     Some [''Flow execution started'', ''Executing node: s'', ''Node executed successfully'',
           ''Executing node: d'', ''Execution cancelled by user'', ''Node executed successfully'',
           ''Executing node: e'', ''Node executed successfully'', ''Flow execution completed''] \<and>
   map_option (status_of ''x1'') resumed_after_cancel = Some (Some ''completed'')"
proof -
  obtain ctx s where w: "waiting_in_delay = (JObj [], ctx, 8, s)"
    "status_of ''x1'' s = Some ''running''"
    using waiting_state by blast
  obtain s' where r: "resumed_after_cancel = Some s'"
    "status_of ''x1'' s' = Some ''completed''"
    "log_messages s' =
       [''Flow execution started'', ''Executing node: s'', ''Node executed successfully'',
        ''Executing node: d'', ''Execution cancelled by user'', ''Node executed successfully'',
        ''Executing node: e'', ''Node executed successfully'', ''Flow execution completed'']"
    using resumed_state by blast
  show ?thesis by (simp add: w r cancelled_state)
qed

subsection \<open>Validation\<close>

text \<open>
  The cycle search returns: its budget is never exhausted, because every call that
  descends marks one more identifier as visited.
\<close>

lemma graph_get_ids: "set (graph_get g k) \<subseteq> graph_ids g"
proof (cases "map_of g k")
  case None
  then show ?thesis by (simp add: graph_get_def)
next
  case (Some targets)
  then have "(k, targets) \<in> set g" by (rule map_of_SomeD)
  then have "set targets \<subseteq> \<Union> (set ` set (map snd g))" by force
  with Some show ?thesis by (auto simp: graph_get_def graph_ids_def)
qed

lemma finite_graph_ids: "finite (graph_ids g)"
  by (simp add: graph_ids_def)

lemma card_unvisited_mono:
  assumes "v \<subseteq> v'"
  shows "card (graph_ids g - v') \<le> card (graph_ids g - v)"
proof -
  from assms have "graph_ids g - v' \<subseteq> graph_ids g - v" by auto
  then show ?thesis using finite_graph_ids[of g] by (intro card_mono) auto
qed

declare dfs.simps [simp del]

lemma dfs_returns:
  "(nodeId \<in> graph_ids g \<longrightarrow> fst st \<subseteq> graph_ids g \<longrightarrow> card (graph_ids g - fst st) \<le> fuel \<longrightarrow>
      (\<exists>b v r. dfs fuel g nodeId st = Some (b, v, r) \<and> fst st \<subseteq> v \<and> v \<subseteq> graph_ids g))"
  "(set ns \<subseteq> graph_ids g \<longrightarrow> fst st \<subseteq> graph_ids g \<longrightarrow> card (graph_ids g - fst st) \<le> fuel \<longrightarrow>
      (\<exists>b v r. dfs_neighbors fuel g ns st = Some (b, v, r) \<and> fst st \<subseteq> v \<and> v \<subseteq> graph_ids g))"
proof (induction fuel g nodeId st and fuel g ns st rule: dfs_dfs_neighbors.induct)
  case (1 fuel g nodeId visited recursionStack)
  show ?case
  proof (intro impI)
    assume mem: "nodeId \<in> graph_ids g" and sub: "fst (visited, recursionStack) \<subseteq> graph_ids g"
      and bound: "card (graph_ids g - fst (visited, recursionStack)) \<le> fuel"
    show "\<exists>b v r. dfs fuel g nodeId (visited, recursionStack) = Some (b, v, r) \<and>
            fst (visited, recursionStack) \<subseteq> v \<and> v \<subseteq> graph_ids g"
    proof (cases "nodeId \<in> recursionStack \<or> nodeId \<in> visited")
      case True
      with sub show ?thesis by (auto simp: dfs.simps)
    next
      case False
      then have nin: "nodeId \<notin> recursionStack" "nodeId \<notin> visited" by auto
      with mem have unv: "nodeId \<in> graph_ids g - visited" by simp
      then have "0 < card (graph_ids g - visited)"
        using finite_graph_ids[of g] by (metis card_gt_0_iff finite_Diff empty_iff)
      with bound obtain fuel' where fuel: "fuel = Suc fuel'" by (cases fuel) auto
      have "graph_ids g - insert nodeId visited = (graph_ids g - visited) - {nodeId}" by auto
      then have "card (graph_ids g - insert nodeId visited) = card (graph_ids g - visited) - 1"
        using unv finite_graph_ids[of g] by simp
      with bound fuel have b': "card (graph_ids g - insert nodeId visited) \<le> fuel'" by simp
      from 1[OF nin(1) nin(2) fuel] graph_get_ids[of g nodeId] mem sub b'
      obtain b v r where
        r: "dfs_neighbors fuel' g (graph_get g nodeId)
              (insert nodeId visited, insert nodeId recursionStack) = Some (b, v, r)"
        and v: "insert nodeId visited \<subseteq> v" "v \<subseteq> graph_ids g"
        by auto
      with nin fuel show ?thesis by (cases b) (auto simp: dfs.simps)
    qed
  qed
next
  case (2 fuel g st)
  then show ?case by (cases st) auto
next
  case (3 fuel g neighbor rest st)
  show ?case
  proof (intro impI)
    assume ns: "set (neighbor # rest) \<subseteq> graph_ids g" and sub: "fst st \<subseteq> graph_ids g"
      and bound: "card (graph_ids g - fst st) \<le> fuel"
    with 3(1) obtain b v r where
      d: "dfs fuel g neighbor st = Some (b, v, r)" and v: "fst st \<subseteq> v" "v \<subseteq> graph_ids g"
      by auto
    show "\<exists>b v r. dfs_neighbors fuel g (neighbor # rest) st = Some (b, v, r) \<and>
            fst st \<subseteq> v \<and> v \<subseteq> graph_ids g"
    proof (cases b)
      case True
      with d v show ?thesis by auto
    next
      case False
      from card_unvisited_mono[OF v(1), of g] bound
      have b': "card (graph_ids g - fst (v, r)) \<le> fuel" by simp
      from 3(2)[OF d[unfolded False] refl] ns v b' False
      obtain b2 v2 r2 where
        "dfs_neighbors fuel g rest (v, r) = Some (b2, v2, r2)" "v \<subseteq> v2" "v2 \<subseteq> graph_ids g"
        by auto
      with d False v show ?thesis by auto
    qed
  qed
qed

lemma dfs_keys_returns:
  "set ks \<subseteq> graph_ids g \<Longrightarrow> fst st \<subseteq> graph_ids g \<Longrightarrow> card (graph_ids g - fst st) \<le> fuel \<Longrightarrow>
     \<exists>b. dfs_keys fuel g ks st = Some b"
proof (induction ks arbitrary: st)
  case Nil
  show ?case by (rule exI[of _ False]) simp
next
  case (Cons k ks)
  obtain visited recursionStack where st: "st = (visited, recursionStack)" by (cases st)
  show ?case
  proof (cases "k \<in> visited")
    case True
    with Cons st show ?thesis by auto
  next
    case False
    from dfs_returns(1)[of k g st fuel] Cons.prems obtain b v r where
      d: "dfs fuel g k st = Some (b, v, r)" and v: "fst st \<subseteq> v" "v \<subseteq> graph_ids g" by auto
    show ?thesis
    proof (cases b)
      case True
      with d st False show ?thesis by auto
    next
      case F: False
      from card_unvisited_mono[OF v(1), of g] Cons.prems
      have "card (graph_ids g - fst (v, r)) \<le> fuel" by simp
      from Cons.IH[OF _ _ this] Cons.prems(1) v obtain b2 where
        "dfs_keys fuel g ks (v, r) = Some b2" by auto
      with d st False F show ?thesis by auto
    qed
  qed
qed

lemma hasCircularDependency_returns: "\<exists>b. hasCircularDependency ns conns = Some b"
proof -
  let ?g = "buildGraph ns conns"
  have "card (graph_ids ?g - {}) \<le> length (map fst ?g @ concat (map snd ?g))"
    unfolding graph_ids_def by (simp only: Diff_empty card_length)
  moreover have "set (map fst ?g) \<subseteq> graph_ids ?g" by (auto simp: graph_ids_def)
  ultimately show ?thesis
    unfolding hasCircularDependency_def Let_def
    by (intro dfs_keys_returns) auto
qed

text \<open>The cycle search on the example flows, evaluated.\<close>

lemmas cycle_defs = hasCircularDependency_def buildGraph_def graph_get_def Let_def dfs.simps

lemma cyclic_flow_circular:
  "hasCircularDependency (nodes cyclic_flow) (connections cyclic_flow) = Some True"
  by (simp add: cycle_defs example_defs)

lemma straight_flow_not_circular:
  "hasCircularDependency (nodes straight_flow) (connections straight_flow) = Some False"
  by (simp add: cycle_defs example_defs)

lemma empty_not_circular: "hasCircularDependency [] [] = Some False"
  by (simp add: cycle_defs)

text \<open>Which messages the check of one connection contributes.\<close>

lemma list_ex_node_id:
  "list_ex (\<lambda>node. node_id node = x) ns \<longleftrightarrow> x \<in> set (map node_id ns)"
  by (induction ns) auto

lemma source_message_reported:
  "''Connection source node '' @ x @ '' does not exist'' \<in> set (connection_errors ns c) \<longleftrightarrow>
     sourceNodeId c = x \<and> x \<notin> set (map node_id ns)"
  by (auto simp: connection_errors_def Let_def list_ex_node_id)

lemma target_message_reported:
  "''Connection target node '' @ x @ '' does not exist'' \<in> set (connection_errors ns c) \<longleftrightarrow>
     targetNodeId c = x \<and> x \<notin> set (map node_id ns)"
  by (auto simp: connection_errors_def Let_def list_ex_node_id)

lemma other_messages_not_connection:
  "''Flow must have at least one start node'' \<notin> set (connection_errors ns c)"
  "''Flow can only have one start node'' \<notin> set (connection_errors ns c)"
  "''Flow must have at least one end node'' \<notin> set (connection_errors ns c)"
  "''Node IDs must be unique'' \<notin> set (connection_errors ns c)"
  "''Flow contains circular dependencies'' \<notin> set (connection_errors ns c)"
  by (simp_all add: connection_errors_def Let_def)

lemma connection_errors_empty:
  "connection_errors ns c = [] \<longleftrightarrow>
     sourceNodeId c \<in> set (map node_id ns) \<and> targetNodeId c \<in> set (map node_id ns)"
  by (auto simp: connection_errors_def Let_def list_ex_node_id)

lemma in_connection_errors:
  "m \<in> set (concat (map (connection_errors ns) conns)) \<longleftrightarrow>
     (\<exists>c \<in> set conns. m \<in> set (connection_errors ns c))"
  by auto

lemma source_message_in_all:
  assumes "conn \<in> set conns"
  shows "''Connection source node '' @ sourceNodeId conn @ '' does not exist''
           \<in> set (concat (map (connection_errors ns) conns)) \<longleftrightarrow>
         sourceNodeId conn \<notin> set (map node_id ns)"
  unfolding in_connection_errors source_message_reported using assms by blast

lemma target_message_in_all:
  assumes "conn \<in> set conns"
  shows "''Connection target node '' @ targetNodeId conn @ '' does not exist''
           \<in> set (concat (map (connection_errors ns) conns)) \<longleftrightarrow>
         targetNodeId conn \<notin> set (map node_id ns)"
  unfolding in_connection_errors target_message_reported using assms by blast

lemma no_connection_errors:
  "concat (map (connection_errors ns) conns) = [] \<longleftrightarrow>
     list_all (\<lambda>conn. sourceNodeId conn \<in> set (map node_id ns) \<and>
                      targetNodeId conn \<in> set (map node_id ns)) conns"
  by (induction conns) (simp_all add: connection_errors_empty)

text \<open>The result of the validation, given the outcome of the cycle search.\<close>

lemma validate_result:
  assumes "hasCircularDependency ns conns = Some circular"
  shows "validateFlowStructure ns conns =
     Some \<lparr>isValid =
             (length (filter (\<lambda>node. node_type node = ''start'') ns) = 1 \<and>
              filter (\<lambda>node. node_type node = ''end'') ns \<noteq> [] \<and>
              distinct (map node_id ns) \<and>
              concat (map (connection_errors ns) conns) = [] \<and> \<not> circular),
           errors =
             (if filter (\<lambda>node. node_type node = ''start'') ns = []
              then [''Flow must have at least one start node'']
              else if 1 < length (filter (\<lambda>node. node_type node = ''start'') ns)
              then [''Flow can only have one start node''] else []) @
             (if filter (\<lambda>node. node_type node = ''end'') ns = []
              then [''Flow must have at least one end node''] else []) @
             (if distinct (map node_id ns) then [] else [''Node IDs must be unique'']) @
             concat (map (connection_errors ns) conns) @
             (if circular then [''Flow contains circular dependencies''] else [])\<rparr>"
proof -
  have d: "(length (map node_id ns) \<noteq> card (set (map node_id ns))) = (\<not> distinct (map node_id ns))"
    using distinct_card[of "map node_id ns"] card_distinct[of "map node_id ns"] by auto
  have l: "(length xs = Suc 0) = (xs \<noteq> [] \<and> \<not> 1 < length xs)" for xs :: "FlowNode list"
    by (cases xs) auto
  show ?thesis
    unfolding validateFlowStructure_def Let_def assms option.case d
    by (auto simp: l)
qed

text \<open>
  C9, as the code has it: \<open>validateFlowStructure\<close> always returns, and its list holds
  every violation found, not only the first: the message for a missing start node
  exactly when there is none, for a duplicate start node exactly when there are several,
  for a missing end node exactly when there is none, for duplicate node ids exactly when
  the ids are not distinct, and for each connection the message naming its source or
  target exactly when that node does not exist. It also reports a circular dependency
  exactly when the cycle search finds one. So the list is empty, and \<open>isValid\<close> true,
  exactly for the flows that satisfy all invariants and in which no cycle is found.
\<close>

theorem validateFlowStructure_reports_all:
  "\<exists>r circular.
     validateFlowStructure ns conns = Some r \<and>
     hasCircularDependency ns conns = Some circular \<and>
     isValid r = (errors r = []) \<and>
     (''Flow must have at least one start node'' \<in> set (errors r) \<longleftrightarrow>
        filter (\<lambda>node. node_type node = ''start'') ns = []) \<and>
     (''Flow can only have one start node'' \<in> set (errors r) \<longleftrightarrow>
        1 < length (filter (\<lambda>node. node_type node = ''start'') ns)) \<and>
     (''Flow must have at least one end node'' \<in> set (errors r) \<longleftrightarrow>
        filter (\<lambda>node. node_type node = ''end'') ns = []) \<and>
     (''Node IDs must be unique'' \<in> set (errors r) \<longleftrightarrow> \<not> distinct (map node_id ns)) \<and>
     (\<forall>conn \<in> set conns.
        (''Connection source node '' @ sourceNodeId conn @ '' does not exist'' \<in> set (errors r) \<longleftrightarrow>
           sourceNodeId conn \<notin> set (map node_id ns)) \<and>
        (''Connection target node '' @ targetNodeId conn @ '' does not exist'' \<in> set (errors r) \<longleftrightarrow>
           targetNodeId conn \<notin> set (map node_id ns))) \<and>
     (''Flow contains circular dependencies'' \<in> set (errors r) \<longleftrightarrow> circular) \<and>
     (errors r = [] \<longleftrightarrow> spec_invariants ns conns \<and> \<not> circular)"
proof -
  obtain circular where c: "hasCircularDependency ns conns = Some circular"
    using hasCircularDependency_returns by blast
  define E where "E = concat (map (connection_errors ns) conns)"
  define r where "r = \<lparr>isValid =
             (length (filter (\<lambda>node. node_type node = ''start'') ns) = 1 \<and>
              filter (\<lambda>node. node_type node = ''end'') ns \<noteq> [] \<and>
              distinct (map node_id ns) \<and> E = [] \<and> \<not> circular),
           errors =
             (if filter (\<lambda>node. node_type node = ''start'') ns = []
              then [''Flow must have at least one start node'']
              else if 1 < length (filter (\<lambda>node. node_type node = ''start'') ns)
              then [''Flow can only have one start node''] else []) @
             (if filter (\<lambda>node. node_type node = ''end'') ns = []
              then [''Flow must have at least one end node''] else []) @
             (if distinct (map node_id ns) then [] else [''Node IDs must be unique'']) @
             E @
             (if circular then [''Flow contains circular dependencies''] else [])\<rparr>"
  have v: "validateFlowStructure ns conns = Some r"
    unfolding r_def E_def by (rule validate_result[OF c])
  have o: "''Flow must have at least one start node'' \<notin> set E"
    "''Flow can only have one start node'' \<notin> set E"
    "''Flow must have at least one end node'' \<notin> set E"
    "''Node IDs must be unique'' \<notin> set E"
    "''Flow contains circular dependencies'' \<notin> set E"
    by (simp_all add: E_def other_messages_not_connection)
  have l: "(length xs = Suc 0) = (xs \<noteq> [] \<and> \<not> Suc 0 < length xs)" for xs :: "FlowNode list"
    by (cases xs) auto
  have fixed:
    "isValid r = (errors r = [])"
    "''Flow must have at least one start node'' \<in> set (errors r) \<longleftrightarrow>
        filter (\<lambda>node. node_type node = ''start'') ns = []"
    "''Flow can only have one start node'' \<in> set (errors r) \<longleftrightarrow>
        1 < length (filter (\<lambda>node. node_type node = ''start'') ns)"
    "''Flow must have at least one end node'' \<in> set (errors r) \<longleftrightarrow>
        filter (\<lambda>node. node_type node = ''end'') ns = []"
    "''Node IDs must be unique'' \<in> set (errors r) \<longleftrightarrow> \<not> distinct (map node_id ns)"
    "''Flow contains circular dependencies'' \<in> set (errors r) \<longleftrightarrow> circular"
    by (auto simp: r_def o l)
  have none: "errors r = [] \<longleftrightarrow> spec_invariants ns conns \<and> \<not> circular"
    using no_connection_errors[of ns conns]
    by (auto simp: r_def l spec_invariants_def E_def)
  have conn: "(''Connection source node '' @ sourceNodeId conn @ '' does not exist'' \<in> set (errors r) \<longleftrightarrow>
           sourceNodeId conn \<notin> set (map node_id ns)) \<and>
        (''Connection target node '' @ targetNodeId conn @ '' does not exist'' \<in> set (errors r) \<longleftrightarrow>
           targetNodeId conn \<notin> set (map node_id ns))" if "conn \<in> set conns" for conn
  proof -
    define ms where "ms = ''Connection source node '' @ sourceNodeId conn @ '' does not exist''"
    define mt where "mt = ''Connection target node '' @ targetNodeId conn @ '' does not exist''"
    have "ms \<in> set E \<longleftrightarrow> sourceNodeId conn \<notin> set (map node_id ns)"
      unfolding ms_def E_def by (rule source_message_in_all[OF that])
    moreover have "mt \<in> set E \<longleftrightarrow> targetNodeId conn \<notin> set (map node_id ns)"
      unfolding mt_def E_def by (rule target_message_in_all[OF that])
    moreover have "ms \<in> set (errors r) \<longleftrightarrow> ms \<in> set E"
      by (simp add: r_def) (simp add: ms_def)
    moreover have "mt \<in> set (errors r) \<longleftrightarrow> mt \<in> set E"
      by (simp add: r_def) (simp add: mt_def)
    ultimately show ?thesis unfolding ms_def mt_def by simp
  qed
  from v c fixed none conn show ?thesis by blast
qed

theorem validateFlowStructure_reports_all_witness:
  "spec_invariants (nodes straight_flow) (connections straight_flow) \<and>
   (\<exists>r. validateFlowStructure (nodes straight_flow) (connections straight_flow) = Some r \<and>
        errors r = [] \<and> isValid r) \<and>
   (\<exists>r. validateFlowStructure [mk_node ''a'' ''action'' None, mk_node ''a'' ''delay'' None]
            [mk_conn ''c1'' ''a'' ''zz'' None] = Some r \<and>
        ''Flow must have at least one start node'' \<in> set (errors r) \<and>
        ''Flow must have at least one end node'' \<in> set (errors r) \<and>
        ''Node IDs must be unique'' \<in> set (errors r) \<and>
        ''Connection target node zz does not exist'' \<in> set (errors r) \<and>
        ''Connection source node a does not exist'' \<notin> set (errors r) \<and>
        \<not> isValid r)"
proof -
  have inv: "spec_invariants (nodes straight_flow) (connections straight_flow)"
    by (simp add: spec_invariants_def example_defs)
  obtain r circular where
    v: "validateFlowStructure (nodes straight_flow) (connections straight_flow) = Some r"
    and c: "hasCircularDependency (nodes straight_flow) (connections straight_flow) = Some circular"
    and i: "isValid r = (errors r = [])"
    and e: "errors r = [] \<longleftrightarrow>
              spec_invariants (nodes straight_flow) (connections straight_flow) \<and> \<not> circular"
    using validateFlowStructure_reports_all
            [of "nodes straight_flow" "connections straight_flow"]
    by blast
  from c straight_flow_not_circular have "\<not> circular" by simp
  with inv e i have "errors r = []" "isValid r" by simp_all
  with v have a: "\<exists>r. validateFlowStructure (nodes straight_flow) (connections straight_flow) = Some r \<and>
        errors r = [] \<and> isValid r"
    by simp
  define ns where "ns = [mk_node ''a'' ''action'' None, mk_node ''a'' ''delay'' None]"
  define conn where "conn = mk_conn ''c1'' ''a'' ''zz'' None"
  obtain r' where
    v': "validateFlowStructure ns [conn] = Some r'"
    and i': "isValid r' = (errors r' = [])"
    and s': "''Flow must have at least one start node'' \<in> set (errors r') \<longleftrightarrow>
        filter (\<lambda>node. node_type node = ''start'') ns = []"
    and e': "''Flow must have at least one end node'' \<in> set (errors r') \<longleftrightarrow>
        filter (\<lambda>node. node_type node = ''end'') ns = []"
    and u': "''Node IDs must be unique'' \<in> set (errors r') \<longleftrightarrow> \<not> distinct (map node_id ns)"
    and c': "\<forall>conn \<in> set [conn].
        (''Connection source node '' @ sourceNodeId conn @ '' does not exist'' \<in> set (errors r') \<longleftrightarrow>
           sourceNodeId conn \<notin> set (map node_id ns)) \<and>
        (''Connection target node '' @ targetNodeId conn @ '' does not exist'' \<in> set (errors r') \<longleftrightarrow>
           targetNodeId conn \<notin> set (map node_id ns))"
    using validateFlowStructure_reports_all [of ns "[conn]"]
    by blast
  from s' have 1: "''Flow must have at least one start node'' \<in> set (errors r')"
    by (simp add: ns_def mk_node_def)
  from e' have 2: "''Flow must have at least one end node'' \<in> set (errors r')"
    by (simp add: ns_def mk_node_def)
  from u' have 3: "''Node IDs must be unique'' \<in> set (errors r')"
    by (simp add: ns_def mk_node_def)
  from c' have 4: "''Connection target node zz does not exist'' \<in> set (errors r')"
    and 5: "''Connection source node a does not exist'' \<notin> set (errors r')"
    by (simp_all add: ns_def conn_def mk_node_def mk_conn_def)
  from 1 i' have 6: "\<not> isValid r'" by auto
  from v' 1 2 3 4 5 6 have b: "\<exists>r. validateFlowStructure [mk_node ''a'' ''action'' None, mk_node ''a'' ''delay'' None]
            [mk_conn ''c1'' ''a'' ''zz'' None] = Some r \<and>
        ''Flow must have at least one start node'' \<in> set (errors r) \<and>
        ''Flow must have at least one end node'' \<in> set (errors r) \<and>
        ''Node IDs must be unique'' \<in> set (errors r) \<and>
        ''Connection target node zz does not exist'' \<in> set (errors r) \<and>
        ''Connection source node a does not exist'' \<notin> set (errors r) \<and>
        \<not> isValid r"
    unfolding ns_def conn_def by (intro exI[of _ r'] conjI)
  from inv a b show ?thesis by (intro conjI)
qed

text \<open>
  C9 as stated fails: \<open>cyclic_flow\<close> satisfies all invariants, and the result is not
  free of violations: the cycle is reported and the flow is invalid.
\<close>

theorem cyclic_flow_rejected_counterexample:
  "spec_invariants (nodes cyclic_flow) (connections cyclic_flow) \<and>
   validateFlowStructure (nodes cyclic_flow) (connections cyclic_flow) =
     Some \<lparr>isValid = False, errors = [''Flow contains circular dependencies'']\<rparr>"
proof -
  have "spec_invariants (nodes cyclic_flow) (connections cyclic_flow)"
    by (simp add: spec_invariants_def example_defs)
  moreover from validate_result[OF cyclic_flow_circular]
  have "validateFlowStructure (nodes cyclic_flow) (connections cyclic_flow) =
     Some \<lparr>isValid = False, errors = [''Flow contains circular dependencies'']\<rparr>"
    by (simp add: example_defs connection_errors_def)
  ultimately show ?thesis by (rule conjI)
qed

subsection \<open>Starting an execution\<close>





end
